theory Spec2Isabelle
  imports Complex_Main
begin

section \<open>Strings\<close>

text \<open>
  A JavaScript string is a sequence of UTF-16 code units; a code unit is modelled as a
  natural number, so that file names outside ASCII are covered. \<open>lit\<close> embeds an
  ASCII literal of the source.
\<close>

type_synonym jsstring = "nat list"

definition lit :: "string \<Rightarrow> jsstring" where
  "lit s = map of_char s"

text \<open>
  \<open>String.prototype.trim\<close> removes leading and trailing white space and line
  terminators: TAB, LF, VT, FF, CR, SPACE, NBSP, U+1680, U+2000 to U+200A, U+2028, U+2029,
  U+202F, U+205F, U+3000 and U+FEFF.
\<close>

definition is_js_space :: "nat \<Rightarrow> bool" where
  "is_js_space c =
     (c = 9 \<or> c = 10 \<or> c = 11 \<or> c = 12 \<or> c = 13 \<or> c = 32 \<or> c = 160 \<or> c = 5760
      \<or> (8192 \<le> c \<and> c \<le> 8202) \<or> c = 8232 \<or> c = 8233 \<or> c = 8239 \<or> c = 8287
      \<or> c = 12288 \<or> c = 65279)"

definition trim :: "jsstring \<Rightarrow> jsstring" where
  "trim s = rev (dropWhile is_js_space (rev (dropWhile is_js_space s)))"

text \<open>\<open>s.split(c)\<close> for a one-character separator: never empty, \<open>''''.split(c)\<close> is \<open>['''']\<close>.\<close>

fun split_on :: "nat \<Rightarrow> jsstring \<Rightarrow> jsstring list" where
  "split_on c [] = [[]]"
| "split_on c (x # xs) =
     (if x = c then [] # split_on c xs
      else (case split_on c xs of [] \<Rightarrow> [[x]] | y # ys \<Rightarrow> (x # y) # ys))"

text \<open>\<open>parts.join(sep)\<close>.\<close>

fun join :: "jsstring \<Rightarrow> jsstring list \<Rightarrow> jsstring" where
  "join sep [] = []"
| "join sep [x] = x"
| "join sep (x # y # ys) = x @ sep @ join sep (y # ys)"

text \<open>The decimal digits of a non-negative integer, as a template literal prints it.\<close>

fun toString :: "nat \<Rightarrow> jsstring" where
  "toString n = (if n < 10 then [48 + n] else toString (n div 10) @ [48 + n mod 10])"

section \<open>Numbers\<close>

text \<open>
  A JavaScript number is NaN, an infinity or a finite value. The special values follow
  IEEE 754 as \<open>*\<close>, \<open>/\<close>, \<open>Math.min\<close>, \<open>Math.max\<close> and \<open>Math.round\<close> treat them,
  and a finite product or quotient is rounded to binary64, overflowing to an infinity.
  Zero carries no sign: the only divisors of the conversion are the image's width and
  height, which the DOM reports as non-negative integers, so a zero divisor is \<open>+0\<close>.
\<close>

datatype jsnum = NaN | NegInf | Fin real | PosInf

text \<open>
  The finite values are the binary64 numbers. \<open>binary64 x\<close> rounds a real to the
  nearest one, a tie going to the even significand: \<open>exponent x\<close> is the binary
  exponent of \<open>x\<close> kept within \<open>-1022\<close> (the subnormal range) and \<open>1024\<close>, found
  by search upwards or downwards from 1; the quantum is 2 to the power of that exponent
  less 52; a result of magnitude \<open>2 powi 1024\<close> or more is an infinity.
\<close>

fun exp_up :: "nat \<Rightarrow> real \<Rightarrow> int \<Rightarrow> int" where
  "exp_up 0 x e = e"
| "exp_up (Suc n) x e = (if x < 2 powi (e + 1) then e else exp_up n x (e + 1))"

fun exp_down :: "nat \<Rightarrow> real \<Rightarrow> int \<Rightarrow> int" where
  "exp_down 0 x e = e"
| "exp_down (Suc n) x e = (if 2 powi e \<le> x then e else exp_down n x (e - 1))"

definition exponent :: "real \<Rightarrow> int" where
  "exponent x = (if 1 \<le> \<bar>x\<bar> then exp_up 1024 \<bar>x\<bar> 0 else exp_down 1021 \<bar>x\<bar> (- 1))"

definition round_ties_even :: "real \<Rightarrow> int" where
  "round_ties_even m =
     (let f = \<lfloor>m\<rfloor>; d = m - of_int f
      in if d < 1 / 2 then f else if 1 / 2 < d then f + 1 else if even f then f else f + 1)"

definition binary64 :: "real \<Rightarrow> jsnum" where
  "binary64 x =
     (let q = 2 powi (exponent x - 52); r = of_int (round_ties_even (x / q)) * q
      in if 2 powi 1024 \<le> \<bar>r\<bar> then (if 0 < x then PosInf else NegInf) else Fin r)"

text \<open>The error of one rounding: half a unit in the last place, or half the subnormal quantum.\<close>

definition binary64_bound :: "real \<Rightarrow> real" where
  "binary64_bound x = 2 powi (- 53) * \<bar>x\<bar> + 2 powi (- 1075)"

fun jmul :: "jsnum \<Rightarrow> jsnum \<Rightarrow> jsnum" where
  "jmul NaN y = NaN"
| "jmul x NaN = NaN"
| "jmul (Fin a) (Fin b) = binary64 (a * b)"
| "jmul (Fin a) PosInf = (if a = 0 then NaN else if 0 < a then PosInf else NegInf)"
| "jmul (Fin a) NegInf = (if a = 0 then NaN else if 0 < a then NegInf else PosInf)"
| "jmul PosInf (Fin b) = (if b = 0 then NaN else if 0 < b then PosInf else NegInf)"
| "jmul NegInf (Fin b) = (if b = 0 then NaN else if 0 < b then NegInf else PosInf)"
| "jmul PosInf PosInf = PosInf"
| "jmul PosInf NegInf = NegInf"
| "jmul NegInf PosInf = NegInf"
| "jmul NegInf NegInf = PosInf"

fun jdiv :: "jsnum \<Rightarrow> jsnum \<Rightarrow> jsnum" where
  "jdiv NaN y = NaN"
| "jdiv x NaN = NaN"
| "jdiv (Fin a) (Fin b) =
     (if b = 0 then (if a = 0 then NaN else if 0 < a then PosInf else NegInf)
      else binary64 (a / b))"
| "jdiv (Fin a) PosInf = Fin 0"
| "jdiv (Fin a) NegInf = Fin 0"
| "jdiv PosInf (Fin b) = (if 0 \<le> b then PosInf else NegInf)"
| "jdiv NegInf (Fin b) = (if 0 \<le> b then NegInf else PosInf)"
| "jdiv PosInf PosInf = NaN"
| "jdiv PosInf NegInf = NaN"
| "jdiv NegInf PosInf = NaN"
| "jdiv NegInf NegInf = NaN"

text \<open>\<open>Math.min(x, y)\<close> and \<open>Math.max(x, y)\<close>: NaN when an argument is NaN.\<close>

fun jmin :: "jsnum \<Rightarrow> jsnum \<Rightarrow> jsnum" where
  "jmin NaN y = NaN"
| "jmin x NaN = NaN"
| "jmin NegInf y = NegInf"
| "jmin x NegInf = NegInf"
| "jmin PosInf y = y"
| "jmin x PosInf = x"
| "jmin (Fin a) (Fin b) = Fin (min a b)"

fun jmax :: "jsnum \<Rightarrow> jsnum \<Rightarrow> jsnum" where
  "jmax NaN y = NaN"
| "jmax x NaN = NaN"
| "jmax PosInf y = PosInf"
| "jmax x PosInf = PosInf"
| "jmax NegInf y = y"
| "jmax x NegInf = x"
| "jmax (Fin a) (Fin b) = Fin (max a b)"

text \<open>
  \<open>Math.round(x)\<close>: the nearest integer, a tie going up; NaN and the infinities stay.
  The result is exact: it is a binary64 number when \<open>x\<close> is one.
\<close>

fun jround :: "jsnum \<Rightarrow> jsnum" where
  "jround (Fin r) = Fin (of_int \<lfloor>r + 1 / 2\<rfloor>)"
| "jround x = x"

text \<open>\<open>x <= y\<close>: false when an argument is NaN.\<close>

fun jle :: "jsnum \<Rightarrow> jsnum \<Rightarrow> bool" where
  "jle NaN y = False"
| "jle x NaN = False"
| "jle NegInf y = True"
| "jle x PosInf = True"
| "jle PosInf y = False"
| "jle x NegInf = False"
| "jle (Fin a) (Fin b) = (a \<le> b)"

section \<open>Data model (types.ts)\<close>

datatype OutputFormat = JPEG | PNG | WEBP

datatype ProcessStatus = IDLE | PROCESSING | COMPLETED | ERROR

datatype ResizeMode = Scale | PX | CM

text \<open>A \<open>Blob\<close> is an opaque handle; a \<open>File\<close> is a name with its bytes.\<close>

datatype Blob = Blob nat

record File =
  name :: jsstring
  bytes :: nat

text \<open>\<open>width\<close> and \<open>height\<close> are \<open>number | ''''\<close>: the empty string is \<open>None\<close>.\<close>

record ConversionSettings =
  format :: OutputFormat
  quality :: jsnum
  resizeMode :: ResizeMode
  scale :: jsnum
  width :: "jsnum option"
  height :: "jsnum option"
  maintainAspectRatio :: bool
  baseFilename :: jsstring
  useSequentialNumbering :: bool

text \<open>The optional fields are \<open>None\<close> while \<open>undefined\<close>. \<open>idF\<close> is the field \<open>id\<close>.\<close>

record ProcessedFile =
  idF :: jsstring
  originalFile :: File
  previewUrl :: jsstring
  status :: ProcessStatus
  outputBlob :: "Blob option"
  newName :: "jsstring option"
  error :: "jsstring option"

section \<open>Conversion engine (imageService)\<close>

text \<open>
  A decoded \<open>Image\<close>: its source and the width and height the DOM reports, non-negative
  integers of 32 bits, which are binary64 numbers as they are (0 for an image without
  natural dimensions).
\<close>

record HTMLImage =
  src :: jsstring
  img_width :: nat
  img_height :: nat

text \<open>
  The browser primitives the engine calls are parameters: the \<open>FileReader\<close> (\<open>None\<close>:
  \<open>onerror\<close> fires), the image decoder (\<open>None\<close>: \<open>img.onerror\<close> fires),
  \<open>canvas.getContext\<close> (whether a context comes back for a canvas of that size) and
  \<open>canvas.toBlob\<close> (\<open>None\<close>: the callback receives \<open>null\<close>). Drawing on the canvas
  is taken not to throw.
\<close>

record browser =
  fileReader :: "File \<Rightarrow> jsstring option"
  imageLoad :: "jsstring \<Rightarrow> HTMLImage option"
  getContext :: "jsnum \<Rightarrow> jsnum \<Rightarrow> bool"
  toBlob :: "HTMLImage \<Rightarrow> jsnum \<Rightarrow> jsnum \<Rightarrow> OutputFormat \<Rightarrow> jsnum \<Rightarrow> Blob option"

text \<open>
  What a promise rejects with: an \<open>Error\<close> carrying a message, or a value that is not an
  \<open>Error\<close> (the \<open>FileReader\<close>'s error event).
\<close>

datatype rejection = Error jsstring | NotAnError

definition readFileAsDataURL :: "browser \<Rightarrow> File \<Rightarrow> rejection + jsstring" where
  "readFileAsDataURL br file =
     (case fileReader br file of None \<Rightarrow> Inl NotAnError | Some result \<Rightarrow> Inr result)"

definition CM_TO_PX :: jsnum where
  "CM_TO_PX = binary64 37.795"

text \<open>\<open>reqW\<close> and \<open>reqH\<close> of \<open>convertImage\<close>, after the conversion of centimeters.\<close>

definition reqW :: "ConversionSettings \<Rightarrow> jsnum option" where
  "reqW settings =
     (let reqW = (case width settings of None \<Rightarrow> None | Some w \<Rightarrow> Some w)
      in if resizeMode settings = CM
         then (case reqW of None \<Rightarrow> None | Some w \<Rightarrow> Some (jmul w CM_TO_PX))
         else reqW)"

definition reqH :: "ConversionSettings \<Rightarrow> jsnum option" where
  "reqH settings =
     (let reqH = (case height settings of None \<Rightarrow> None | Some h \<Rightarrow> Some h)
      in if resizeMode settings = CM
         then (case reqH of None \<Rightarrow> None | Some h \<Rightarrow> Some (jmul h CM_TO_PX))
         else reqH)"

text \<open>
  \<open>targetWidth\<close> and \<open>targetHeight\<close> as the resize-mode branches of \<open>img.onload\<close>
  leave them, before the check for 0 dimensions.
\<close>

definition resizeTarget :: "HTMLImage \<Rightarrow> ConversionSettings \<Rightarrow> jsnum \<times> jsnum" where
  "resizeTarget img settings =
     (let iw = Fin (real (img_width img)); ih = Fin (real (img_height img)) in
      if resizeMode settings = Scale
      then (jround (jmul iw (scale settings)), jround (jmul ih (scale settings)))
      else
        if maintainAspectRatio settings
        then (case (reqW settings, reqH settings) of
                (Some rw, Some rh) \<Rightarrow>
                  (let scaleW = jdiv rw iw; scaleH = jdiv rh ih; sc = jmin scaleW scaleH
                   in (jround (jmul iw sc), jround (jmul ih sc)))
              | (Some rw, None) \<Rightarrow> (jround rw, jround (jmul ih (jdiv rw iw)))
              | (None, Some rh) \<Rightarrow> (jround (jmul iw (jdiv rh ih)), jround rh)
              | (None, None) \<Rightarrow> (iw, ih))
        else ((case reqW settings of Some rw \<Rightarrow> jround rw | None \<Rightarrow> iw),
              (case reqH settings of Some rh \<Rightarrow> jround rh | None \<Rightarrow> ih)))"

text \<open>The final \<open>targetWidth\<close> and \<open>targetHeight\<close>, after \<open>Math.max(1, _)\<close>.\<close>

definition targetSize :: "HTMLImage \<Rightarrow> ConversionSettings \<Rightarrow> jsnum \<times> jsnum" where
  "targetSize img settings =
     (let (targetWidth, targetHeight) = resizeTarget img settings
      in (jmax (Fin 1) targetWidth, jmax (Fin 1) targetHeight))"

definition convertImage :: "browser \<Rightarrow> File \<Rightarrow> ConversionSettings \<Rightarrow> rejection + Blob" where
  "convertImage br file settings =
     (case readFileAsDataURL br file of
        Inl e \<Rightarrow> Inl e
      | Inr dataUrl \<Rightarrow>
          (case imageLoad br dataUrl of
             None \<Rightarrow> Inl (Error (lit ''Failed to load image''))
           | Some img \<Rightarrow>
               (let (targetWidth, targetHeight) = targetSize img settings in
                if \<not> getContext br targetWidth targetHeight
                then Inl (Error (lit ''Could not get canvas context''))
                else (case toBlob br img targetWidth targetHeight (format settings)
                             (quality settings) of
                        Some blob \<Rightarrow> Inr blob
                      | None \<Rightarrow> Inl (Error (lit ''Conversion failed''))))))"

text \<open>The \<open>default\<close> branch of the \<open>switch\<close> is not reached by a value of the enum.\<close>

fun getExtensionFromMime :: "OutputFormat \<Rightarrow> jsstring" where
  "getExtensionFromMime JPEG = lit ''jpg''"
| "getExtensionFromMime PNG = lit ''png''"
| "getExtensionFromMime WEBP = lit ''webp''"

section \<open>Batch orchestrator (App)\<close>

text \<open>The settings the application starts with.\<close>

definition initialSettings :: ConversionSettings where
  "initialSettings =
     \<lparr>format = JPEG, quality = binary64 0.9, resizeMode = Scale, scale = Fin 1.0,
      width = None, height = None, maintainAspectRatio = True,
      baseFilename = [], useSequentialNumbering = False\<rparr>"

text \<open>\<open>name.split('.').slice(0, -1).join('.')\<close>.\<close>

definition originalBase :: "File \<Rightarrow> jsstring" where
  "originalBase file =
     join (lit ''.'') (butlast (split_on (of_char CHR ''.'') (name file)))"

text \<open>The renaming logic of \<open>startProcessing\<close>; \<open>index\<close> is the position in the full array.\<close>

definition computeBaseName :: "ConversionSettings \<Rightarrow> File \<Rightarrow> nat \<Rightarrow> jsstring" where
  "computeBaseName settings file index =
     (let baseName = trim (baseFilename settings);
          baseName = (if baseName = [] then originalBase file else baseName)
      in if useSequentialNumbering settings
         then baseName @ lit ''_'' @ toString (index + 1)
         else baseName)"

text \<open>The updates of the file list, each a \<open>map\<close> over the current list by id.\<close>

definition resetErrors :: "ProcessedFile list \<Rightarrow> ProcessedFile list" where
  "resetErrors fs = map (\<lambda>f. if status f = ERROR then f\<lparr>status := IDLE\<rparr> else f) fs"

definition markProcessing :: "jsstring \<Rightarrow> ProcessedFile list \<Rightarrow> ProcessedFile list" where
  "markProcessing i current =
     map (\<lambda>f. if idF f = i then f\<lparr>status := PROCESSING\<rparr> else f) current"

definition markCompleted ::
  "jsstring \<Rightarrow> Blob \<Rightarrow> jsstring \<Rightarrow> ProcessedFile list \<Rightarrow> ProcessedFile list" where
  "markCompleted i blob baseName current =
     map (\<lambda>f. if idF f = i
              then f\<lparr>status := COMPLETED, outputBlob := Some blob, newName := Some baseName\<rparr>
              else f) current"

definition markError :: "jsstring \<Rightarrow> jsstring \<Rightarrow> ProcessedFile list \<Rightarrow> ProcessedFile list" where
  "markError i message current =
     map (\<lambda>f. if idF f = i then f\<lparr>status := ERROR, error := Some message\<rparr> else f) current"

text \<open>
  The files a run converts, each with its index in the full array: those that are not
  completed once the errors are reset.
\<close>

definition tasks :: "ProcessedFile list \<Rightarrow> (ProcessedFile \<times> nat) list" where
  "tasks newFiles =
     filter (\<lambda>(fileItem, index). status fileItem \<noteq> COMPLETED)
       (zip newFiles [0..<length newFiles])"

text \<open>
  What the settling of one conversion does to the list: the \<open>try\<close> branch on a blob,
  the \<open>catch\<close> branch on a rejection. \<open>statusFailed\<close> is the translated message
  \<open>t.statusFailed\<close>.
\<close>

definition settle ::
  "browser \<Rightarrow> ConversionSettings \<Rightarrow> jsstring \<Rightarrow> ProcessedFile \<times> nat
     \<Rightarrow> ProcessedFile list \<Rightarrow> ProcessedFile list" where
  "settle br settings statusFailed task current =
     (case task of (fileItem, index) \<Rightarrow>
        (let baseName = computeBaseName settings (originalFile fileItem) index in
         case convertImage br (originalFile fileItem) settings of
           Inr blob \<Rightarrow> markCompleted (idF fileItem) blob baseName current
         | Inl e \<Rightarrow>
             markError (idF fileItem)
               (case e of Error message \<Rightarrow> message | NotAnError \<Rightarrow> statusFailed) current))"

text \<open>
  A run. The errors are reset; every task marks its file \<open>PROCESSING\<close> before the first
  conversion settles (each callback runs up to its first \<open>await\<close>); then the conversions
  settle in the order \<open>order\<close>, which the browser chooses.
\<close>

definition startProcessing ::
  "browser \<Rightarrow> ConversionSettings \<Rightarrow> jsstring \<Rightarrow> (ProcessedFile \<times> nat) list
     \<Rightarrow> ProcessedFile list \<Rightarrow> ProcessedFile list" where
  "startProcessing br settings statusFailed order files =
     (let newFiles = resetErrors files;
          started = foldl (\<lambda>current (fileItem, index). markProcessing (idF fileItem) current)
                      newFiles (tasks newFiles)
      in foldl (\<lambda>current task. settle br settings statusFailed task current) started order)"

text \<open>
  What one task's two updates do to a single file of the list: the run is a \<open>map\<close> of
  these over the list (lemma \<open>startProcessing_pointwise\<close>).
\<close>

definition processingOf :: "ProcessedFile \<times> nat \<Rightarrow> ProcessedFile \<Rightarrow> ProcessedFile" where
  "processingOf task f = (if idF f = idF (fst task) then f\<lparr>status := PROCESSING\<rparr> else f)"

definition settledOf ::
  "browser \<Rightarrow> ConversionSettings \<Rightarrow> jsstring \<Rightarrow> ProcessedFile \<times> nat \<Rightarrow> ProcessedFile
     \<Rightarrow> ProcessedFile" where
  "settledOf br settings statusFailed task f =
     (if idF f = idF (fst task)
      then (case convertImage br (originalFile (fst task)) settings of
              Inr blob \<Rightarrow>
                f\<lparr>status := COMPLETED, outputBlob := Some blob,
                  newName := Some (computeBaseName settings (originalFile (fst task)) (snd task))\<rparr>
            | Inl e \<Rightarrow>
                f\<lparr>status := ERROR,
                  error := Some (case e of Error message \<Rightarrow> message | NotAnError \<Rightarrow> statusFailed)\<rparr>)
      else f)"

text \<open>The other updates of the list: intake, removal, clearing and the reset button.\<close>

definition handleFilesSelected ::
  "(File \<times> jsstring \<times> jsstring) list \<Rightarrow> ProcessedFile list \<Rightarrow> ProcessedFile list" where
  "handleFilesSelected newFiles prev =
     prev @ map (\<lambda>(file, i, url).
                  \<lparr>idF = i, originalFile = file, previewUrl = url, status = IDLE,
                   outputBlob = None, newName = None, error = None\<rparr>) newFiles"

definition handleRemoveFile :: "jsstring \<Rightarrow> ProcessedFile list \<Rightarrow> ProcessedFile list" where
  "handleRemoveFile i prev = filter (\<lambda>f. idF f \<noteq> i) prev"

definition handleClearAll :: "ProcessedFile list \<Rightarrow> ProcessedFile list" where
  "handleClearAll prev = []"

definition resetAll :: "ProcessedFile list \<Rightarrow> ProcessedFile list" where
  "resetAll prev = map (\<lambda>f. f\<lparr>status := IDLE\<rparr>) prev"

text \<open>Every write to the file list in the application, as one action each.\<close>

datatype action =
    FilesSelected "(File \<times> jsstring \<times> jsstring) list"
  | RemoveFile jsstring
  | ClearAll
  | ResetAll
  | ResetErrors
  | MarkProcessing jsstring
  | MarkCompleted jsstring Blob jsstring
  | MarkError jsstring jsstring

fun step :: "action \<Rightarrow> ProcessedFile list \<Rightarrow> ProcessedFile list" where
  "step (FilesSelected newFiles) fs = handleFilesSelected newFiles fs"
| "step (RemoveFile i) fs = handleRemoveFile i fs"
| "step ClearAll fs = handleClearAll fs"
| "step ResetAll fs = resetAll fs"
| "step ResetErrors fs = resetErrors fs"
| "step (MarkProcessing i) fs = markProcessing i fs"
| "step (MarkCompleted i blob baseName) fs = markCompleted i blob baseName fs"
| "step (MarkError i message) fs = markError i message fs"

text \<open>
  The write a settled conversion makes, as an action, and the writes of a run in order
  (lemma \<open>startProcessing_as_actions\<close>).
\<close>

definition settleAction ::
  "browser \<Rightarrow> ConversionSettings \<Rightarrow> jsstring \<Rightarrow> ProcessedFile \<times> nat \<Rightarrow> action" where
  "settleAction br settings statusFailed task =
     (case task of (fileItem, index) \<Rightarrow>
        (case convertImage br (originalFile fileItem) settings of
           Inr blob \<Rightarrow>
             MarkCompleted (idF fileItem) blob
               (computeBaseName settings (originalFile fileItem) index)
         | Inl e \<Rightarrow>
             MarkError (idF fileItem)
               (case e of Error message \<Rightarrow> message | NotAnError \<Rightarrow> statusFailed)))"

definition runActions ::
  "browser \<Rightarrow> ConversionSettings \<Rightarrow> jsstring \<Rightarrow> (ProcessedFile \<times> nat) list
     \<Rightarrow> ProcessedFile list \<Rightarrow> action list" where
  "runActions br settings statusFailed order files =
     ResetErrors
       # map (\<lambda>(fileItem, index). MarkProcessing (idF fileItem)) (tasks (resetErrors files))
       @ map (settleAction br settings statusFailed) order"

section \<open>Export\<close>

text \<open>A template literal prints an \<open>undefined\<close> name as \<open>undefined\<close>.\<close>

definition fileName :: "ConversionSettings \<Rightarrow> ProcessedFile \<Rightarrow> jsstring" where
  "fileName settings file =
     (case newName file of None \<Rightarrow> lit ''undefined'' | Some n \<Rightarrow> n)
       @ lit ''.'' @ getExtensionFromMime (format settings)"

datatype download_mode = Zip | Raw

text \<open>
  A call of \<open>FileSaver.saveAs\<close>: a single blob under a name, or an archive, given by its
  entries (a later entry of the same name replaces the earlier one), under a name.
\<close>

datatype saved = SaveBlob Blob jsstring | SaveZip "jsstring \<Rightarrow> Blob option" jsstring

definition isReady :: "ProcessedFile \<Rightarrow> bool" where
  "isReady f = (status f = COMPLETED \<and> outputBlob f \<noteq> None)"

text \<open>\<open>now\<close> is \<open>Date.now()\<close>. The result lists the downloads triggered, in order.\<close>

definition handleDownloadFiles ::
  "ConversionSettings \<Rightarrow> nat \<Rightarrow> ProcessedFile list \<Rightarrow> download_mode \<Rightarrow> saved list" where
  "handleDownloadFiles settings now targetFiles mode =
     (let readyFiles = filter isReady targetFiles in
      if length readyFiles = 0 then []
      else (case mode of
              Zip \<Rightarrow>
                [SaveZip
                   (foldl (\<lambda>zip file.
                             (case outputBlob file of
                                Some blob \<Rightarrow> zip(fileName settings file \<mapsto> blob)
                              | None \<Rightarrow> zip))
                      Map.empty readyFiles)
                   (lit ''pixmorph_converted_'' @ toString now @ lit ''.zip'')]
            | Raw \<Rightarrow>
                concat (map (\<lambda>file.
                               (case outputBlob file of
                                  Some blob \<Rightarrow> [SaveBlob blob (fileName settings file)]
                                | None \<Rightarrow> []))
                         readyFiles)))"

definition onDownloadSelected ::
  "ConversionSettings \<Rightarrow> nat \<Rightarrow> ProcessedFile list \<Rightarrow> jsstring set \<Rightarrow> download_mode
     \<Rightarrow> saved list" where
  "onDownloadSelected settings now files selectedIds mode =
     handleDownloadFiles settings now (filter (\<lambda>f. idF f \<in> selectedIds) files) mode"

definition onDownloadAll ::
  "ConversionSettings \<Rightarrow> nat \<Rightarrow> ProcessedFile list \<Rightarrow> download_mode \<Rightarrow> saved list" where
  "onDownloadAll settings now files mode = handleDownloadFiles settings now files mode"

section \<open>Example data\<close>

text \<open>
  A browser in which \<open>broken.png\<close> does not decode and \<open>huge.png\<close> does not encode,
  and a list of four files: one completed, one failed, two idle.
\<close>

definition exampleBrowser :: browser where
  "exampleBrowser =
     \<lparr>fileReader = (\<lambda>file. if bytes file = 0 then None else Some (name file)),
      imageLoad = (\<lambda>url. if url = lit ''broken.png'' then None
                          else Some \<lparr>src = url, img_width = 4, img_height = 2\<rparr>),
      getContext = (\<lambda>w h. True),
      toBlob = (\<lambda>img w h fmt q. if src img = lit ''huge.png'' then None else Some (Blob 7))\<rparr>"

definition exampleFiles :: "ProcessedFile list" where
  "exampleFiles =
     [\<lparr>idF = lit ''a'', originalFile = \<lparr>name = lit ''done.jpg'', bytes = 1\<rparr>,
       previewUrl = lit ''blob:1'', status = COMPLETED, outputBlob = Some (Blob 1),
       newName = Some (lit ''done''), error = None\<rparr>,
      \<lparr>idF = lit ''b'', originalFile = \<lparr>name = lit ''photo.v2.png'', bytes = 2\<rparr>,
       previewUrl = lit ''blob:2'', status = IDLE, outputBlob = None,
       newName = None, error = None\<rparr>,
      \<lparr>idF = lit ''c'', originalFile = \<lparr>name = lit ''broken.png'', bytes = 3\<rparr>,
       previewUrl = lit ''blob:3'', status = ERROR, outputBlob = None,
       newName = None, error = Some (lit ''Failed to load image'')\<rparr>,
      \<lparr>idF = lit ''d'', originalFile = \<lparr>name = lit ''huge.png'', bytes = 4\<rparr>,
       previewUrl = lit ''blob:4'', status = IDLE, outputBlob = None,
       newName = None, error = None\<rparr>]"

section \<open>Rounding to binary64\<close>

lemma exp_up_numeral:
  "exp_up (numeral k) x e = (if x < 2 powi (e + 1) then e else exp_up (pred_numeral k) x (e + 1))"
  by (simp add: numeral_eq_Suc)

lemma exp_down_numeral:
  "exp_down (numeral k) x e = (if 2 powi e \<le> x then e else exp_down (pred_numeral k) x (e - 1))"
  by (simp add: numeral_eq_Suc)

lemma exp_up_lower: "2 powi e \<le> x \<Longrightarrow> 2 powi (exp_up n x e) \<le> x"
  by (induction n arbitrary: e) auto

lemma exp_up_top: "2 powi (e + int n) \<le> x \<Longrightarrow> exp_up n x e = e + int n"
proof (induction n arbitrary: e)
  case 0
  then show ?case by simp
next
  case (Suc n)
  have "(2::real) powi (e + 1) \<le> 2 powi (e + int (Suc n))"
    by (rule power_int_increasing) simp_all
  with Suc.prems have "\<not> x < 2 powi (e + 1)" by linarith
  moreover have "exp_up n x (e + 1) = e + 1 + int n"
    using Suc.prems by (intro Suc.IH) (simp add: algebra_simps)
  ultimately show ?case by simp
qed

lemma exp_down_lower: "2 powi (exp_down n x e) \<le> x \<or> exp_down n x e = e - int n"
  by (induction n arbitrary: e) (auto, force)

lemma exp_down_nonpos: "x \<le> 0 \<Longrightarrow> exp_down n x e = e - int n"
proof (induction n arbitrary: e)
  case 0
  then show ?case by simp
next
  case (Suc n)
  have "(0::real) < 2 powi e" by simp
  with Suc.prems have "\<not> 2 powi e \<le> x" by linarith
  then show ?case using Suc by simp
qed

lemma exponent_lower: "2 powi (exponent x) \<le> \<bar>x\<bar> \<or> exponent x = - 1022"
proof (cases "1 \<le> \<bar>x\<bar>")
  case True
  then have "2 powi (exp_up 1024 \<bar>x\<bar> 0) \<le> \<bar>x\<bar>"
    by (intro exp_up_lower) simp
  with True show ?thesis by (simp add: exponent_def)
next
  case False
  from exp_down_lower [of 1021 "\<bar>x\<bar>" "- 1"] False
  show ?thesis by (simp add: exponent_def)
qed

lemma exponent_zero: "exponent 0 = - 1022"
  using exp_down_nonpos [of 0 1021 "- 1"] by (simp add: exponent_def)

lemma exponent_top: "2 powi 1024 \<le> \<bar>x\<bar> \<Longrightarrow> exponent x = 1024"
proof -
  assume a: "2 powi 1024 \<le> \<bar>x\<bar>"
  have "(1::real) \<le> 2 powi 1024" by simp
  with a have one: "1 \<le> \<bar>x\<bar>" by linarith
  have "exp_up 1024 \<bar>x\<bar> 0 = 0 + int 1024"
    using a by (intro exp_up_top) simp
  with one show ?thesis by (simp add: exponent_def)
qed

lemma round_ties_even_error: "\<bar>real_of_int (round_ties_even m) - m\<bar> \<le> 1 / 2"
  unfolding round_ties_even_def Let_def by (auto split: if_splits)

lemma round_ties_even_int: "round_ties_even (of_int k) = k"
  by (simp add: round_ties_even_def)

lemma binary64_not_NaN: "binary64 x \<noteq> NaN"
  by (simp add: binary64_def Let_def)

lemma binary64_zero: "binary64 0 = Fin 0"
  by (simp add: binary64_def Let_def round_ties_even_def)

lemma binary64_error:
  assumes "binary64 x = Fin r"
  shows "\<bar>r - x\<bar> \<le> binary64_bound x"
proof -
  define q :: real where "q = 2 powi (exponent x - 52)"
  have qpos: "0 < q" by (simp add: q_def)
  have r: "r = of_int (round_ties_even (x / q)) * q"
    using assms by (simp add: binary64_def Let_def q_def split: if_splits)
  have "r - x = (of_int (round_ties_even (x / q)) - x / q) * q"
    using qpos by (simp add: r field_simps)
  then have "\<bar>r - x\<bar> = \<bar>of_int (round_ties_even (x / q)) - x / q\<bar> * q"
    using qpos by (simp add: abs_mult)
  also have "\<dots> \<le> 1 / 2 * q"
    using round_ties_even_error [of "x / q"] qpos by (intro mult_right_mono) simp_all
  finally have half: "\<bar>r - x\<bar> \<le> q / 2" by simp
  have q2: "q / 2 = 2 powi (exponent x) * 2 powi (- 53)"
    by (simp add: q_def power_int_diff power_int_minus field_simps)
  from exponent_lower [of x] have "q / 2 \<le> binary64_bound x"
  proof
    assume "2 powi exponent x \<le> \<bar>x\<bar>"
    then have "2 powi (exponent x) * 2 powi (- 53) \<le> \<bar>x\<bar> * 2 powi (- 53)"
      by (intro mult_right_mono) simp_all
    then show ?thesis by (simp add: q2 binary64_bound_def mult.commute)
  next
    assume "exponent x = - 1022"
    then have "q / 2 = 2 powi (- 1075)"
      by (simp add: q_def power_int_minus field_simps)
    then show ?thesis by (simp add: binary64_bound_def)
  qed
  with half show ?thesis by linarith
qed

lemma binary64_overflow:
  assumes "2 powi 1024 \<le> x"
  shows "binary64 x = PosInf"
proof -
  have pos: "0 < x" using assms by (smt (verit) zero_less_power_int)
  have e: "exponent x = 1024" using assms pos by (intro exponent_top) simp
  define q :: real where "q = 2 powi 972"
  have qpos: "0 < q" by (simp add: q_def)
  have "2 powi 1024 = (2::real) powi 52 * q"
    by (simp add: q_def flip: power_int_add)
  then have "of_int (2 ^ 52) \<le> x / q"
    using assms qpos by (simp add: field_simps)
  then have "real_of_int (2 ^ 52) - 1 / 2 \<le> of_int (round_ties_even (x / q))"
    using round_ties_even_error [of "x / q"] by linarith
  then have "(2::int) ^ 52 \<le> round_ties_even (x / q)" by linarith
  then have "real_of_int (2 ^ 52) \<le> of_int (round_ties_even (x / q))" by linarith
  then have "real_of_int (2 ^ 52) * q \<le> of_int (round_ties_even (x / q)) * q"
    using qpos by (intro mult_right_mono) simp_all
  moreover have "real_of_int (2 ^ 52) * q = 2 powi 1024"
    by (simp add: q_def flip: power_int_add)
  ultimately have "2 powi 1024 \<le> \<bar>of_int (round_ties_even (x / q)) * q\<bar>" by linarith
  then show ?thesis using pos e by (simp add: binary64_def Let_def q_def)
qed

section \<open>A run, file by file\<close>

lemma foldl_map_pointwise:
  "foldl (\<lambda>current t. map (g t) current) init ts = map (\<lambda>f. foldl (\<lambda>x t. g t x) f ts) init"
  by (induction ts arbitrary: init) (simp_all add: comp_def)

lemma foldl_single_update:
  assumes other: "\<And>t. t \<in> set ts \<Longrightarrow> t \<noteq> t0 \<Longrightarrow> g t f = f \<and> g t (g t0 f) = g t0 f"
    and idem: "g t0 (g t0 f) = g t0 f"
  shows "foldl (\<lambda>x t. g t x) f ts = (if t0 \<in> set ts then g t0 f else f)"
  using other
proof (induction ts rule: rev_induct)
  case Nil
  show ?case by simp
next
  case (snoc t ts)
  have ih: "foldl (\<lambda>x t. g t x) f ts = (if t0 \<in> set ts then g t0 f else f)"
    using snoc by simp
  show ?case
  proof (cases "t = t0")
    case True
    then show ?thesis using ih idem by simp
  next
    case False
    then have "g t f = f \<and> g t (g t0 f) = g t0 f" using snoc.prems by simp
    then show ?thesis using ih False by simp
  qed
qed

lemma settle_map:
  "settle br settings statusFailed task current = map (settledOf br settings statusFailed task) current"
  by (cases task) (auto simp: settle_def settledOf_def markCompleted_def markError_def Let_def split: sum.splits)

lemma markProcessing_map:
  "(\<lambda>current (fileItem, index). markProcessing (idF fileItem) current)
     = (\<lambda>current t. map (processingOf t) current)"
  by (auto simp: fun_eq_iff markProcessing_def processingOf_def)

lemma startProcessing_pointwise:
  "startProcessing br settings statusFailed order files =
     map (\<lambda>f. foldl (\<lambda>x t. settledOf br settings statusFailed t x)
                (foldl (\<lambda>x t. processingOf t x) f (tasks (resetErrors files))) order)
       (resetErrors files)"
  by (simp add: startProcessing_def Let_def markProcessing_map settle_map foldl_map_pointwise comp_def)

lemma length_resetErrors: "length (resetErrors fs) = length fs"
  by (simp add: resetErrors_def)

lemma idF_resetErrors: "k < length fs \<Longrightarrow> idF (resetErrors fs ! k) = idF (fs ! k)"
  by (simp add: resetErrors_def)

lemma tasks_mem:
  "t \<in> set (tasks newFiles) \<longleftrightarrow>
     (\<exists>j < length newFiles. t = (newFiles ! j, j) \<and> status (newFiles ! j) \<noteq> COMPLETED)"
  by (cases t) (auto simp: tasks_def in_set_zip)

lemma tasks_same_id:
  assumes d: "distinct (map idF newFiles)" and k: "k < length newFiles"
    and t: "t \<in> set (tasks newFiles)" and ne: "t \<noteq> (newFiles ! k, k)"
  shows "idF (fst t) \<noteq> idF (newFiles ! k)"
proof
  assume eq: "idF (fst t) = idF (newFiles ! k)"
  from t obtain j where j: "j < length newFiles" "t = (newFiles ! j, j)"
    by (auto simp: tasks_mem)
  from eq j k have "map idF newFiles ! j = map idF newFiles ! k" by simp
  moreover have "j < length (map idF newFiles)" "k < length (map idF newFiles)"
    using j k by simp_all
  ultimately have "j = k" using d nth_eq_iff_index_eq by blast
  with j ne show False by simp
qed

lemma startProcessing_length:
  "length (startProcessing br settings statusFailed order files) = length files"
  by (simp add: startProcessing_pointwise length_resetErrors)

lemma startProcessing_nth:
  assumes d: "distinct (map idF files)" and k: "k < length files"
    and ord: "set order = set (tasks (resetErrors files))"
  shows "startProcessing br settings statusFailed order files ! k =
     (if status (files ! k) = COMPLETED then files ! k
      else (case convertImage br (originalFile (files ! k)) settings of
              Inr blob \<Rightarrow>
                (files ! k)\<lparr>status := COMPLETED, outputBlob := Some blob,
                  newName := Some (computeBaseName settings (originalFile (files ! k)) k)\<rparr>
            | Inl e \<Rightarrow>
                (files ! k)\<lparr>status := ERROR,
                  error := Some (case e of Error message \<Rightarrow> message | NotAnError \<Rightarrow> statusFailed)\<rparr>))"
proof -
  define newFiles where "newFiles = resetErrors files"
  define f' where "f' = newFiles ! k"
  define t0 where "t0 = (f', k)"
  have len: "length newFiles = length files" by (simp add: newFiles_def length_resetErrors)
  have d': "distinct (map idF newFiles)"
    using d by (simp add: newFiles_def resetErrors_def comp_def if_distrib cong: if_cong)
  have f'_eq: "f' = (if status (files ! k) = ERROR then (files ! k)\<lparr>status := IDLE\<rparr> else files ! k)"
    using k by (simp add: f'_def newFiles_def resetErrors_def)
  have other: "\<And>t. t \<in> set (tasks newFiles) \<Longrightarrow> t \<noteq> t0 \<Longrightarrow> idF f' \<noteq> idF (fst t)"
    using tasks_same_id [OF d'] k len by (fastforce simp: t0_def f'_def)
  have t0_in: "t0 \<in> set (tasks newFiles) \<longleftrightarrow> status f' \<noteq> COMPLETED"
    using k len by (auto simp: tasks_mem t0_def f'_def)
  have started: "foldl (\<lambda>x t. processingOf t x) f' (tasks newFiles)
       = (if t0 \<in> set (tasks newFiles) then processingOf t0 f' else f')"
    by (rule foldl_single_update) (simp_all add: other processingOf_def)
  define g where "g = (if t0 \<in> set (tasks newFiles) then processingOf t0 f' else f')"
  have idg: "idF g = idF f'" by (simp add: g_def processingOf_def)
  have settled: "foldl (\<lambda>x t. settledOf br settings statusFailed t x) g order
       = (if t0 \<in> set order then settledOf br settings statusFailed t0 g else g)"
  proof (rule foldl_single_update)
    fix t assume "t \<in> set order" "t \<noteq> t0"
    then have "idF f' \<noteq> idF (fst t)" using other ord by (simp add: newFiles_def)
    then show "settledOf br settings statusFailed t g = g \<and>
        settledOf br settings statusFailed t (settledOf br settings statusFailed t0 g)
          = settledOf br settings statusFailed t0 g"
      using idg by (simp add: settledOf_def t0_def split: sum.splits)
  next
    show "settledOf br settings statusFailed t0 (settledOf br settings statusFailed t0 g)
        = settledOf br settings statusFailed t0 g"
      by (simp add: settledOf_def split: sum.splits)
  qed
  have "startProcessing br settings statusFailed order files ! k
      = foldl (\<lambda>x t. settledOf br settings statusFailed t x)
          (foldl (\<lambda>x t. processingOf t x) f' (tasks newFiles)) order"
    using k len by (simp add: startProcessing_pointwise newFiles_def f'_def)
  also have "\<dots> = (if t0 \<in> set order then settledOf br settings statusFailed t0 g else g)"
    using started settled by (simp add: g_def)
  finally show ?thesis
    using t0_in ord
    by (auto simp: g_def newFiles_def f'_eq t0_def settledOf_def processingOf_def split: sum.splits)
qed


section \<open>A run as a sequence of writes\<close>

lemma step_settleAction:
  "step (settleAction br settings statusFailed task) fs = settle br settings statusFailed task fs"
  by (cases task) (simp add: settleAction_def settle_def split: sum.splits)

lemma startProcessing_as_actions:
  "startProcessing br settings statusFailed order files =
     foldl (\<lambda>fs a. step a fs) files (runActions br settings statusFailed order files)"
proof -
  have a: "foldl (\<lambda>fs a. step a fs) init
             (map (\<lambda>(fileItem, index). MarkProcessing (idF fileItem)) ts)
         = foldl (\<lambda>current (fileItem, index). markProcessing (idF fileItem) current) init ts"
    for init and ts :: "(ProcessedFile \<times> nat) list"
    by (induction ts arbitrary: init) (simp_all add: split_def)
  have b: "foldl (\<lambda>fs a. step a fs) init (map (settleAction br settings statusFailed) ts)
         = foldl (\<lambda>current task. settle br settings statusFailed task current) init ts"
    for init ts
    by (induction ts arbitrary: init) (simp_all add: step_settleAction)
  show ?thesis
    by (simp add: startProcessing_def runActions_def Let_def a b)
qed

lemma step_cases:
  assumes "g \<in> set (step a fs)"
  shows "(\<exists>f \<in> set fs. idF g = idF f \<and> outputBlob g = outputBlob f \<and> newName g = newName f)
       \<or> (outputBlob g = None \<and> newName g = None \<and> status g = IDLE
            \<and> (\<exists>newFiles. a = FilesSelected newFiles))
       \<or> (\<exists>i blob baseName. a = MarkCompleted i blob baseName \<and> idF g = i
            \<and> status g = COMPLETED \<and> outputBlob g = Some blob \<and> newName g = Some baseName)"
proof (cases a)
  case (FilesSelected newFiles)
  then show ?thesis using assms by (auto simp: handleFilesSelected_def)
next
  case (RemoveFile i)
  then show ?thesis using assms by (auto simp: handleRemoveFile_def)
next
  case ClearAll
  then show ?thesis using assms by (simp add: handleClearAll_def)
next
  case ResetAll
  then show ?thesis using assms by (auto simp: resetAll_def)
next
  case ResetErrors
  then show ?thesis using assms by (auto simp: resetErrors_def split: if_splits)
next
  case (MarkProcessing i)
  then show ?thesis using assms by (auto simp: markProcessing_def split: if_splits)
next
  case (MarkCompleted i blob baseName)
  then show ?thesis using assms by (auto simp: markCompleted_def split: if_splits)
next
  case (MarkError i message)
  then show ?thesis using assms by (auto simp: markError_def split: if_splits)
qed

lemma step_paired:
  assumes "\<forall>f \<in> set fs. outputBlob f = None \<longleftrightarrow> newName f = None"
    and "g \<in> set (step a fs)"
  shows "outputBlob g = None \<longleftrightarrow> newName g = None"
  using step_cases [OF assms(2)] assms(1) by auto

lemma steps_paired:
  "\<forall>g \<in> set (foldl (\<lambda>fs a. step a fs) [] as). outputBlob g = None \<longleftrightarrow> newName g = None"
proof (induction as rule: rev_induct)
  case Nil
  show ?case by simp
next
  case (snoc a as)
  then show ?case using step_paired by auto
qed

section \<open>Splitting, joining and trimming\<close>


lemma split_on_no_sep: "c \<notin> set s \<Longrightarrow> split_on c s = [s]"
  by (induction s) auto








lemma originalBase_no_dot: "of_char CHR ''.'' \<notin> set (name file) \<Longrightarrow> originalBase file = []"
  by (simp add: originalBase_def split_on_no_sep)


lemma dropWhile_all_iff: "(\<forall>x \<in> set (dropWhile P s). P x) \<longleftrightarrow> (\<forall>x \<in> set s. P x)"
proof
  assume a: "\<forall>x \<in> set (dropWhile P s). P x"
  have "dropWhile P s = []"
  proof (rule ccontr)
    assume ne: "dropWhile P s \<noteq> []"
    then have "\<not> P (hd (dropWhile P s))" by (rule hd_dropWhile)
    moreover have "hd (dropWhile P s) \<in> set (dropWhile P s)" using ne by simp
    ultimately show False using a by blast
  qed
  then show "\<forall>x \<in> set s. P x" by (simp add: dropWhile_eq_Nil_conv)
next
  assume "\<forall>x \<in> set s. P x"
  then show "\<forall>x \<in> set (dropWhile P s). P x" by (auto dest: set_dropWhileD)
qed

lemma trim_Nil_iff: "trim s = [] \<longleftrightarrow> (\<forall>c \<in> set s. is_js_space c)"
  by (simp add: trim_def dropWhile_eq_Nil_conv dropWhile_all_iff)

section \<open>Requested and target dimensions\<close>

lemma reqW_None_iff: "reqW settings = None \<longleftrightarrow> width settings = None"
  by (simp add: reqW_def split: option.splits)

lemma reqH_None_iff: "reqH settings = None \<longleftrightarrow> height settings = None"
  by (simp add: reqH_def split: option.splits)

lemma reqW_eq:
  "reqW settings =
     (if resizeMode settings = CM then map_option (\<lambda>w. jmul w CM_TO_PX) (width settings)
      else width settings)"
  by (simp add: reqW_def split: option.splits)

lemma reqH_eq:
  "reqH settings =
     (if resizeMode settings = CM then map_option (\<lambda>h. jmul h CM_TO_PX) (height settings)
      else height settings)"
  by (simp add: reqH_def split: option.splits)

lemma round_half_bound: "\<bar>real_of_int \<lfloor>x + 1 / 2\<rfloor> - x\<bar> \<le> 1 / 2" for x :: real
  by linarith

lemma jmax_one_not_NaN: "x \<noteq> NaN \<Longrightarrow> jle (Fin 1) (jmax (Fin 1) x)"
  by (cases x) simp_all

lemma jround_not_NaN: "x \<noteq> NaN \<Longrightarrow> jround x \<noteq> NaN"
  by (cases x) simp_all

lemma jmul_pos_not_NaN: "0 < a \<Longrightarrow> x \<noteq> NaN \<Longrightarrow> jmul (Fin a) x \<noteq> NaN"
  by (cases x) (simp_all add: binary64_not_NaN)

lemmas binary64_eval =
  binary64_def exponent_def round_ties_even_def Let_def exp_up_numeral exp_down_numeral

lemma CM_TO_PX_eq: "CM_TO_PX = Fin (2659586686194811 / 70368744177664)"
  by (simp add: CM_TO_PX_def binary64_eval)

lemma jmul_CM_TO_PX_not_NaN: "x \<noteq> NaN \<Longrightarrow> jmul x CM_TO_PX \<noteq> NaN"
  by (cases x) (simp_all add: CM_TO_PX_eq binary64_not_NaN)

lemma jdiv_pos_not_NaN: "0 < a \<Longrightarrow> x \<noteq> NaN \<Longrightarrow> jdiv x (Fin a) \<noteq> NaN"
  by (cases x) (simp_all add: binary64_not_NaN)

lemma jmul_error: "jmul (Fin x) (Fin y) = Fin r \<Longrightarrow> \<bar>r - x * y\<bar> \<le> binary64_bound (x * y)"
  by (simp add: binary64_error)

lemma jdiv_error:
  "y \<noteq> 0 \<Longrightarrow> jdiv (Fin x) (Fin y) = Fin r \<Longrightarrow> \<bar>r - x / y\<bar> \<le> binary64_bound (x / y)"
  by (simp add: binary64_error)

lemma jmin_not_NaN: "x \<noteq> NaN \<Longrightarrow> y \<noteq> NaN \<Longrightarrow> jmin x y \<noteq> NaN"
  by (cases x; cases y) simp_all

lemma reqW_not_NaN: "width settings \<noteq> Some NaN \<Longrightarrow> reqW settings \<noteq> Some NaN"
  by (auto simp: reqW_eq dest: jmul_CM_TO_PX_not_NaN [rotated])

lemma reqH_not_NaN: "height settings \<noteq> Some NaN \<Longrightarrow> reqH settings \<noteq> Some NaN"
  by (auto simp: reqH_eq dest: jmul_CM_TO_PX_not_NaN [rotated])

lemma resizeTarget_not_NaN:
  assumes "0 < img_width img" and "0 < img_height img"
    and "scale settings \<noteq> NaN" and "width settings \<noteq> Some NaN" and "height settings \<noteq> Some NaN"
  shows "fst (resizeTarget img settings) \<noteq> NaN \<and> snd (resizeTarget img settings) \<noteq> NaN"
proof -
  have w: "reqW settings \<noteq> Some NaN" and h: "reqH settings \<noteq> Some NaN"
    using assms by (simp_all add: reqW_not_NaN reqH_not_NaN)
  have pos: "0 < real (img_width img)" "0 < real (img_height img)"
    using assms by simp_all
  show ?thesis
    using w h pos assms(3)
    by (auto simp: resizeTarget_def Let_def jround_not_NaN jmul_pos_not_NaN jdiv_pos_not_NaN
        jmin_not_NaN split: option.splits)
qed

lemma targetSize_eq:
  "targetSize img settings =
     (jmax (Fin 1) (fst (resizeTarget img settings)), jmax (Fin 1) (snd (resizeTarget img settings)))"
  by (simp add: targetSize_def split_def Let_def)

lemma targetSize_at_least_one:
  assumes "0 < img_width img" and "0 < img_height img"
    and "scale settings \<noteq> NaN" and "width settings \<noteq> Some NaN" and "height settings \<noteq> Some NaN"
  shows "jle (Fin 1) (fst (targetSize img settings)) \<and> jle (Fin 1) (snd (targetSize img settings))"
  using resizeTarget_not_NaN [OF assms]
  by (simp add: targetSize_def split_def Let_def jmax_one_not_NaN)

section \<open>The archive and the downloads\<close>

lemma zip_entries:
  "foldl (\<lambda>zip file. (case outputBlob file of
                         Some blob \<Rightarrow> zip(fileName settings file \<mapsto> blob)
                       | None \<Rightarrow> zip)) z fs k = Some b
   \<Longrightarrow> z k = Some b \<or> (\<exists>f \<in> set fs. outputBlob f = Some b \<and> k = fileName settings f)"
proof (induction fs arbitrary: z)
  case Nil
  then show ?case by simp
next
  case (Cons f fs)
  from Cons.IH [OF Cons.prems [simplified]]
  show ?case by (auto split: option.splits if_splits)
qed

lemma raw_downloads:
  "handleDownloadFiles settings now targetFiles Raw =
     map (\<lambda>f. SaveBlob (the (outputBlob f)) (fileName settings f)) (filter isReady targetFiles)"
proof -
  have "concat (map (\<lambda>file. (case outputBlob file of
                                 Some blob \<Rightarrow> [SaveBlob blob (fileName settings file)]
                               | None \<Rightarrow> [])) (filter isReady fs))
      = map (\<lambda>f. SaveBlob (the (outputBlob f)) (fileName settings f)) (filter isReady fs)" for fs
    by (induction fs) (auto simp: isReady_def)
  then show ?thesis by (simp add: handleDownloadFiles_def Let_def)
qed

section \<open>Facts about the example data\<close>

lemma example_ids: "distinct (map idF exampleFiles)"
  by (simp add: exampleFiles_def lit_def)

lemma example_length: "length exampleFiles = 4"
  by (simp add: exampleFiles_def)

lemma example_status:
  "status (exampleFiles ! 0) = COMPLETED" "status (exampleFiles ! 1) = IDLE"
  "status (exampleFiles ! 2) = ERROR" "status (exampleFiles ! 3) = IDLE"
  by (simp_all add: exampleFiles_def)


lemma example_convert_broken:
  "convertImage exampleBrowser (originalFile (exampleFiles ! 2)) initialSettings
     = Inl (Error (lit ''Failed to load image''))"
  by (simp add: exampleFiles_def exampleBrowser_def convertImage_def readFileAsDataURL_def)

section \<open>The claims\<close>



text \<open>
  C2. In pixel or centimeter mode, with the aspect ratio preserved and both width and
  height given, the target size (before the final clamp, see C4) is both natural
  dimensions scaled by the smaller of the two scale factors, requested width by natural
  width and requested height by natural height, each result rounded. Every operation is
  the binary64 one. For finite requests and an image of positive dimensions, with all
  intermediate results finite, this is a contain fit up to rounding: each scale factor
  is its exact quotient within one binary64 rounding, both dimensions are their natural
  ones times the same factor within one binary64 rounding, and \<open>Math.round\<close> moves
  each by at most one half.
\<close>

theorem contain_fit:
  assumes "resizeMode settings = PX \<or> resizeMode settings = CM"
    and "maintainAspectRatio settings"
    and "reqW settings = Some rw" and "reqH settings = Some rh"
  shows "resizeTarget img settings =
           (let sc = jmin (jdiv rw (Fin (real (img_width img))))
                          (jdiv rh (Fin (real (img_height img))))
            in (jround (jmul (Fin (real (img_width img))) sc),
                jround (jmul (Fin (real (img_height img))) sc)))
       \<and> (\<forall>a b sw sh w h.
            rw = Fin a \<and> rh = Fin b \<and> 0 < img_width img \<and> 0 < img_height img
            \<and> jdiv (Fin a) (Fin (real (img_width img))) = Fin sw
            \<and> jdiv (Fin b) (Fin (real (img_height img))) = Fin sh
            \<and> jmul (Fin (real (img_width img))) (Fin (min sw sh)) = Fin w
            \<and> jmul (Fin (real (img_height img))) (Fin (min sw sh)) = Fin h \<longrightarrow>
            resizeTarget img settings =
              (Fin (of_int \<lfloor>w + 1 / 2\<rfloor>), Fin (of_int \<lfloor>h + 1 / 2\<rfloor>))
            \<and> \<bar>sw - a / real (img_width img)\<bar> \<le> binary64_bound (a / real (img_width img))
            \<and> \<bar>sh - b / real (img_height img)\<bar> \<le> binary64_bound (b / real (img_height img))
            \<and> \<bar>w - real (img_width img) * min sw sh\<bar>
                \<le> binary64_bound (real (img_width img) * min sw sh)
            \<and> \<bar>h - real (img_height img) * min sw sh\<bar>
                \<le> binary64_bound (real (img_height img) * min sw sh)
            \<and> \<bar>real_of_int \<lfloor>w + 1 / 2\<rfloor> - w\<bar> \<le> 1 / 2
            \<and> \<bar>real_of_int \<lfloor>h + 1 / 2\<rfloor> - h\<bar> \<le> 1 / 2)"
proof (intro conjI allI impI)
  show first: "resizeTarget img settings =
           (let sc = jmin (jdiv rw (Fin (real (img_width img))))
                          (jdiv rh (Fin (real (img_height img))))
            in (jround (jmul (Fin (real (img_width img))) sc),
                jround (jmul (Fin (real (img_height img))) sc)))"
    using assms by (auto simp: resizeTarget_def Let_def)
  fix a b sw sh w h
  assume hyp: "rw = Fin a \<and> rh = Fin b \<and> 0 < img_width img \<and> 0 < img_height img
            \<and> jdiv (Fin a) (Fin (real (img_width img))) = Fin sw
            \<and> jdiv (Fin b) (Fin (real (img_height img))) = Fin sh
            \<and> jmul (Fin (real (img_width img))) (Fin (min sw sh)) = Fin w
            \<and> jmul (Fin (real (img_height img))) (Fin (min sw sh)) = Fin h"
  define W where "W = real (img_width img)"
  define H where "H = real (img_height img)"
  have pos: "W \<noteq> 0" "H \<noteq> 0" using hyp by (simp_all add: W_def H_def)
  have sw: "jdiv (Fin a) (Fin W) = Fin sw" and sh: "jdiv (Fin b) (Fin H) = Fin sh"
    and w: "jmul (Fin W) (Fin (min sw sh)) = Fin w"
    and h: "jmul (Fin H) (Fin (min sw sh)) = Fin h"
    using hyp by (auto simp: W_def H_def simp del: jmul.simps jdiv.simps)
  have "resizeTarget img settings = (jround (Fin w), jround (Fin h))"
    using first hyp sw sh w h unfolding Let_def W_def [symmetric] H_def [symmetric]
    by (simp del: jmul.simps jdiv.simps)
  then show "resizeTarget img settings =
      (Fin (of_int \<lfloor>w + 1 / 2\<rfloor>), Fin (of_int \<lfloor>h + 1 / 2\<rfloor>))"
    by simp
  show "\<bar>sw - a / real (img_width img)\<bar> \<le> binary64_bound (a / real (img_width img))"
    using jdiv_error [OF pos(1) sw] by (simp add: W_def)
  show "\<bar>sh - b / real (img_height img)\<bar> \<le> binary64_bound (b / real (img_height img))"
    using jdiv_error [OF pos(2) sh] by (simp add: H_def)
  show "\<bar>w - real (img_width img) * min sw sh\<bar>
      \<le> binary64_bound (real (img_width img) * min sw sh)"
    using jmul_error [OF w] by (simp add: W_def)
  show "\<bar>h - real (img_height img) * min sw sh\<bar>
      \<le> binary64_bound (real (img_height img) * min sw sh)"
    using jmul_error [OF h] by (simp add: H_def)
  show "\<bar>real_of_int \<lfloor>w + 1 / 2\<rfloor> - w\<bar> \<le> 1 / 2" by (rule round_half_bound)
  show "\<bar>real_of_int \<lfloor>h + 1 / 2\<rfloor> - h\<bar> \<le> 1 / 2" by (rule round_half_bound)
qed

theorem contain_fit_witness:
  "resizeTarget \<lparr>src = [], img_width = 22, img_height = 11\<rparr>
     (initialSettings\<lparr>resizeMode := PX, width := Some (Fin 15), height := Some (Fin 8)\<rparr>)
     = (Fin 15, Fin 7)
   \<and> jdiv (Fin 15) (Fin 22) = Fin (6141272219141585 / 9007199254740992)
   \<and> jmul (Fin 11) (Fin (6141272219141585 / 9007199254740992))
       = Fin (8444249301319679 / 1125899906842624)
   \<and> \<bar>6141272219141585 / 9007199254740992 - 15 / 22\<bar> \<le> binary64_bound (15 / 22)
   \<and> \<bar>8444249301319679 / 1125899906842624 - 11 * (6141272219141585 / 9007199254740992)\<bar>
       \<le> binary64_bound (11 * (6141272219141585 / 9007199254740992))"
proof -
  define S where
    "S = initialSettings\<lparr>resizeMode := PX, width := Some (Fin 15), height := Some (Fin 8)\<rparr>"
  define I where "I = \<lparr>src = [], img_width = 22, img_height = 11\<rparr>"
  define sw :: real where "sw = 6141272219141585 / 9007199254740992"
  define sh :: real where "sh = 3275345183542179 / 4503599627370496"
  define w :: real where "w = 8444249301319679 / 562949953421312"
  define h :: real where "h = 8444249301319679 / 1125899906842624"
  have hyp: "resizeMode S = PX \<or> resizeMode S = CM" "maintainAspectRatio S"
    "reqW S = Some (Fin 15)" "reqH S = Some (Fin 8)"
    by (simp_all add: S_def initialSettings_def reqW_def reqH_def)
  have m: "min sw sh = sw" by (simp add: sw_def sh_def)
  have e1: "jdiv (Fin 15) (Fin (real (img_width I))) = Fin sw"
    by (simp add: I_def sw_def binary64_eval)
  have e2: "jdiv (Fin 8) (Fin (real (img_height I))) = Fin sh"
    by (simp add: I_def sh_def binary64_eval)
  have e3: "jmul (Fin (real (img_width I))) (Fin (min sw sh)) = Fin w"
    unfolding m by (simp add: I_def sw_def w_def binary64_eval)
  have e4: "jmul (Fin (real (img_height I))) (Fin (min sw sh)) = Fin h"
    unfolding m by (simp add: I_def sw_def h_def binary64_eval)
  from contain_fit [OF hyp, of I]
  have "\<forall>a b sw sh w h.
      Fin 15 = Fin a \<and> Fin 8 = Fin b \<and> 0 < img_width I \<and> 0 < img_height I
      \<and> jdiv (Fin a) (Fin (real (img_width I))) = Fin sw
      \<and> jdiv (Fin b) (Fin (real (img_height I))) = Fin sh
      \<and> jmul (Fin (real (img_width I))) (Fin (min sw sh)) = Fin w
      \<and> jmul (Fin (real (img_height I))) (Fin (min sw sh)) = Fin h \<longrightarrow>
      resizeTarget I S = (Fin (of_int \<lfloor>w + 1 / 2\<rfloor>), Fin (of_int \<lfloor>h + 1 / 2\<rfloor>))
      \<and> \<bar>sw - a / real (img_width I)\<bar> \<le> binary64_bound (a / real (img_width I))
      \<and> \<bar>sh - b / real (img_height I)\<bar> \<le> binary64_bound (b / real (img_height I))
      \<and> \<bar>w - real (img_width I) * min sw sh\<bar> \<le> binary64_bound (real (img_width I) * min sw sh)
      \<and> \<bar>h - real (img_height I) * min sw sh\<bar> \<le> binary64_bound (real (img_height I) * min sw sh)
      \<and> \<bar>real_of_int \<lfloor>w + 1 / 2\<rfloor> - w\<bar> \<le> 1 / 2
      \<and> \<bar>real_of_int \<lfloor>h + 1 / 2\<rfloor> - h\<bar> \<le> 1 / 2"
    by (rule conjunct2)
  then have r: "resizeTarget I S = (Fin (of_int \<lfloor>w + 1 / 2\<rfloor>), Fin (of_int \<lfloor>h + 1 / 2\<rfloor>))
      \<and> \<bar>sw - 15 / real (img_width I)\<bar> \<le> binary64_bound (15 / real (img_width I))
      \<and> \<bar>h - real (img_height I) * min sw sh\<bar> \<le> binary64_bound (real (img_height I) * min sw sh)"
    using e1 e2 e3 e4 by (simp add: I_def)
  have fl: "\<lfloor>w + 1 / 2\<rfloor> = 15" "\<lfloor>h + 1 / 2\<rfloor> = 7"
    by (simp_all add: w_def h_def)
  have i: "real (img_width I) = 22" "real (img_height I) = 11" by (simp_all add: I_def)
  have g1: "resizeTarget I S = (Fin 15, Fin 7)" using r fl by simp
  have g2: "jdiv (Fin 15) (Fin 22) = Fin sw" using e1 unfolding i .
  have g3: "jmul (Fin 11) (Fin sw) = Fin h" using e4 unfolding i m .
  have g4: "\<bar>sw - 15 / 22\<bar> \<le> binary64_bound (15 / 22)" using r unfolding i by blast
  have g5: "\<bar>h - 11 * sw\<bar> \<le> binary64_bound (11 * sw)" using r unfolding i m by blast
  show ?thesis
    using g1 g2 g3 g4 g5 unfolding S_def I_def sw_def h_def by blast
qed

text \<open>
  C3. In pixel or centimeter mode, for the target before the final clamp (see C4): with
  the aspect ratio preserved and one dimension given, the given dimension is rounded and
  the other is the natural one times the quotient of the given dimension by its natural
  counterpart, rounded; with neither given, the natural width and height pass through;
  with the aspect ratio not preserved, each given dimension is rounded and an absent one
  is the natural one. A dimension is requested exactly when its setting is not the empty
  string. Every operation is the binary64 one: for a finite request, with the quotient
  and the product finite, each is its exact value within one binary64 rounding.
\<close>

theorem other_resize_branches:
  assumes "resizeMode settings = PX \<or> resizeMode settings = CM"
  shows "(reqW settings = None \<longleftrightarrow> width settings = None)
       \<and> (reqH settings = None \<longleftrightarrow> height settings = None)
       \<and> (maintainAspectRatio settings \<and> reqW settings = Some rw \<and> reqH settings = None \<longrightarrow>
            resizeTarget img settings =
              (jround rw,
               jround (jmul (Fin (real (img_height img))) (jdiv rw (Fin (real (img_width img)))))))
       \<and> (maintainAspectRatio settings \<and> reqW settings = None \<and> reqH settings = Some rh \<longrightarrow>
            resizeTarget img settings =
              (jround (jmul (Fin (real (img_width img))) (jdiv rh (Fin (real (img_height img))))),
               jround rh))
       \<and> (maintainAspectRatio settings \<and> reqW settings = Some (Fin a) \<and> reqH settings = None
            \<and> 0 < img_width img
            \<and> jdiv (Fin a) (Fin (real (img_width img))) = Fin q
            \<and> jmul (Fin (real (img_height img))) (Fin q) = Fin p \<longrightarrow>
            resizeTarget img settings =
              (Fin (of_int \<lfloor>a + 1 / 2\<rfloor>), Fin (of_int \<lfloor>p + 1 / 2\<rfloor>))
            \<and> \<bar>q - a / real (img_width img)\<bar> \<le> binary64_bound (a / real (img_width img))
            \<and> \<bar>p - real (img_height img) * q\<bar> \<le> binary64_bound (real (img_height img) * q))
       \<and> (maintainAspectRatio settings \<and> reqW settings = None \<and> reqH settings = Some (Fin b)
            \<and> 0 < img_height img
            \<and> jdiv (Fin b) (Fin (real (img_height img))) = Fin q'
            \<and> jmul (Fin (real (img_width img))) (Fin q') = Fin p' \<longrightarrow>
            resizeTarget img settings =
              (Fin (of_int \<lfloor>p' + 1 / 2\<rfloor>), Fin (of_int \<lfloor>b + 1 / 2\<rfloor>))
            \<and> \<bar>q' - b / real (img_height img)\<bar> \<le> binary64_bound (b / real (img_height img))
            \<and> \<bar>p' - real (img_width img) * q'\<bar> \<le> binary64_bound (real (img_width img) * q'))
       \<and> (reqW settings = None \<and> reqH settings = None \<longrightarrow>
            resizeTarget img settings = (Fin (real (img_width img)), Fin (real (img_height img))))
       \<and> (\<not> maintainAspectRatio settings \<longrightarrow>
            resizeTarget img settings =
              ((case reqW settings of Some w \<Rightarrow> jround w | None \<Rightarrow> Fin (real (img_width img))),
               (case reqH settings of Some h \<Rightarrow> jround h | None \<Rightarrow> Fin (real (img_height img)))))"
proof (intro conjI impI)
  show "reqW settings = None \<longleftrightarrow> width settings = None" by (rule reqW_None_iff)
  show "reqH settings = None \<longleftrightarrow> height settings = None" by (rule reqH_None_iff)
next
  assume h: "maintainAspectRatio settings \<and> reqW settings = Some (Fin a) \<and> reqH settings = None
      \<and> 0 < img_width img
      \<and> jdiv (Fin a) (Fin (real (img_width img))) = Fin q
      \<and> jmul (Fin (real (img_height img))) (Fin q) = Fin p"
  then show "resizeTarget img settings =
      (Fin (of_int \<lfloor>a + 1 / 2\<rfloor>), Fin (of_int \<lfloor>p + 1 / 2\<rfloor>))"
    using assms by (auto simp: resizeTarget_def Let_def simp del: jmul.simps jdiv.simps)
  have "real (img_width img) \<noteq> 0" using h by simp
  then show "\<bar>q - a / real (img_width img)\<bar> \<le> binary64_bound (a / real (img_width img))"
    using h by (intro jdiv_error) (auto simp del: jmul.simps jdiv.simps)
  show "\<bar>p - real (img_height img) * q\<bar> \<le> binary64_bound (real (img_height img) * q)"
    using h by (intro jmul_error) (auto simp del: jmul.simps jdiv.simps)
next
  assume h: "maintainAspectRatio settings \<and> reqW settings = None \<and> reqH settings = Some (Fin b)
      \<and> 0 < img_height img
      \<and> jdiv (Fin b) (Fin (real (img_height img))) = Fin q'
      \<and> jmul (Fin (real (img_width img))) (Fin q') = Fin p'"
  then show "resizeTarget img settings =
      (Fin (of_int \<lfloor>p' + 1 / 2\<rfloor>), Fin (of_int \<lfloor>b + 1 / 2\<rfloor>))"
    using assms by (auto simp: resizeTarget_def Let_def simp del: jmul.simps jdiv.simps)
  have "real (img_height img) \<noteq> 0" using h by simp
  then show "\<bar>q' - b / real (img_height img)\<bar> \<le> binary64_bound (b / real (img_height img))"
    using h by (intro jdiv_error) (auto simp del: jmul.simps jdiv.simps)
  show "\<bar>p' - real (img_width img) * q'\<bar> \<le> binary64_bound (real (img_width img) * q')"
    using h by (intro jmul_error) (auto simp del: jmul.simps jdiv.simps)
qed (use assms in \<open>auto simp: resizeTarget_def Let_def simp del: jmul.simps jdiv.simps\<close>)

theorem other_resize_branches_witness:
  "resizeTarget \<lparr>src = [], img_width = 6, img_height = 27\<rparr>
     (initialSettings\<lparr>resizeMode := PX, width := Some (Fin 13)\<rparr>) = (Fin 13, Fin 58)
   \<and> jdiv (Fin 13) (Fin 6) = Fin (4878899596318037 / 2251799813685248)
   \<and> jmul (Fin 27) (Fin (4878899596318037 / 2251799813685248))
       = Fin (8233143068786687 / 140737488355328)
   \<and> \<bar>4878899596318037 / 2251799813685248 - 13 / 6\<bar> \<le> binary64_bound (13 / 6)
   \<and> resizeTarget \<lparr>src = [], img_width = 4, img_height = 2\<rparr>
     (initialSettings\<lparr>resizeMode := PX, height := Some (Fin 3)\<rparr>) = (Fin 6, Fin 3)
   \<and> resizeTarget \<lparr>src = [], img_width = 4, img_height = 2\<rparr>
     (initialSettings\<lparr>resizeMode := CM\<rparr>) = (Fin 4, Fin 2)
   \<and> resizeTarget \<lparr>src = [], img_width = 4, img_height = 2\<rparr>
     (initialSettings\<lparr>resizeMode := PX, width := Some (Fin 7.5), maintainAspectRatio := False\<rparr>)
       = (Fin 8, Fin 2)"
proof -
  define I where "I = \<lparr>src = [], img_width = 4, img_height = 2\<rparr>"
  define J where "J = \<lparr>src = [], img_width = 6, img_height = 27\<rparr>"
  define q :: real where "q = 4878899596318037 / 2251799813685248"
  define p :: real where "p = 8233143068786687 / 140737488355328"
  have e1: "jdiv (Fin 13) (Fin 6) = Fin q" by (simp add: q_def binary64_eval)
  have e2: "jmul (Fin 27) (Fin q) = Fin p" by (simp add: q_def p_def binary64_eval)
  have fl: "\<lfloor>p + 1 / 2\<rfloor> = 58" by (simp add: p_def)
  have a: "resizeTarget J (initialSettings\<lparr>resizeMode := PX, width := Some (Fin 13)\<rparr>)
      = (Fin 13, Fin (of_int \<lfloor>p + 1 / 2\<rfloor>))
      \<and> \<bar>q - 13 / 6\<bar> \<le> binary64_bound (13 / 6)"
    using other_resize_branches [of "initialSettings\<lparr>resizeMode := PX, width := Some (Fin 13)\<rparr>"
        "Fin 13" J "Fin 13" 13 q p 13 q p] e1 e2
    by (simp add: initialSettings_def reqW_def reqH_def J_def del: jmul.simps jdiv.simps)
  have e3: "jdiv (Fin 3) (Fin 2) = Fin (3 / 2)" "jmul (Fin 4) (Fin (3 / 2)) = Fin 6"
    by (simp_all add: binary64_eval)
  have b: "resizeTarget I (initialSettings\<lparr>resizeMode := PX, height := Some (Fin 3)\<rparr>)
      = (Fin 6, Fin 3)"
    using other_resize_branches [of "initialSettings\<lparr>resizeMode := PX, height := Some (Fin 3)\<rparr>"
        "Fin 3" I "Fin 3" 3 "3 / 2" 6 3 "3 / 2" 6] e3
    by (simp add: initialSettings_def reqW_def reqH_def I_def del: jmul.simps jdiv.simps)
  have c: "resizeTarget I (initialSettings\<lparr>resizeMode := CM\<rparr>) = (Fin 4, Fin 2)"
    using other_resize_branches [of "initialSettings\<lparr>resizeMode := CM\<rparr>" "Fin 3" I "Fin 3"]
    by (simp add: initialSettings_def reqW_def reqH_def I_def del: jmul.simps jdiv.simps)
  have d: "resizeTarget I
      (initialSettings\<lparr>resizeMode := PX, width := Some (Fin 7.5), maintainAspectRatio := False\<rparr>)
      = (Fin 8, Fin 2)"
    using other_resize_branches [of
        "initialSettings\<lparr>resizeMode := PX, width := Some (Fin 7.5), maintainAspectRatio := False\<rparr>"
        "Fin 3" I "Fin 3"]
    by (simp add: initialSettings_def reqW_def reqH_def I_def del: jmul.simps jdiv.simps)
  show ?thesis
    using a b c d e1 e2 unfolding fl I_def J_def q_def p_def by simp
qed

text \<open>
  C4. The claim is that both final target dimensions are at least 1 for every image and
  every settings value. \<open>Math.max(1, x)\<close> is NaN when \<open>x\<close> is NaN: for an image
  whose width and height are 0, pixel mode with the aspect ratio preserved and both
  dimensions requested computes \<open>100 / 0 = Infinity\<close> and \<open>0 * Infinity = NaN\<close>, and
  the final dimensions are NaN, which is not at least 1. Lemma
  \<open>targetSize_at_least_one\<close> above gives the bound for images of positive dimensions
  and settings without NaN.
\<close>

theorem clamp_lets_NaN_through:
  "targetSize \<lparr>src = [], img_width = 0, img_height = 0\<rparr>
     (initialSettings\<lparr>resizeMode := PX, width := Some (Fin 100), height := Some (Fin 100)\<rparr>)
     = (NaN, NaN)
   \<and> \<not> jle (Fin 1) NaN"
  by (simp add: targetSize_def resizeTarget_def reqW_def reqH_def initialSettings_def)



text \<open>
  C6. Every write to the file list leaves the output blob and the output name of a file
  as they were, except the update of a settled conversion, which sets the status to
  completed, the blob and the name at once; a file taken in has neither. Hence in every
  list reached from the empty one a file has a blob exactly when it has a name. A run is
  a sequence of these writes.
\<close>

theorem blob_and_name_set_together:
  "(\<forall>g \<in> set (step a fs).
      (\<exists>f \<in> set fs. idF g = idF f \<and> outputBlob g = outputBlob f \<and> newName g = newName f)
    \<or> (outputBlob g = None \<and> newName g = None \<and> status g = IDLE
         \<and> (\<exists>newFiles. a = FilesSelected newFiles))
    \<or> (\<exists>i blob baseName. a = MarkCompleted i blob baseName \<and> idF g = i
         \<and> status g = COMPLETED \<and> outputBlob g = Some blob \<and> newName g = Some baseName))
   \<and> (\<forall>g \<in> set (foldl (\<lambda>fs a. step a fs) [] as).
         outputBlob g = None \<longleftrightarrow> newName g = None)
   \<and> startProcessing br settings statusFailed order files =
         foldl (\<lambda>fs a. step a fs) files (runActions br settings statusFailed order files)"
  using step_cases steps_paired startProcessing_as_actions by blast

theorem blob_and_name_set_together_witness:
  "(let a = MarkCompleted (lit ''b'') (Blob 9) (lit ''photo''); g = step a exampleFiles ! 1 in
      g \<in> set (step a exampleFiles)
      \<and> ((\<exists>f \<in> set exampleFiles.
             idF g = idF f \<and> outputBlob g = outputBlob f \<and> newName g = newName f)
         \<or> (outputBlob g = None \<and> newName g = None \<and> status g = IDLE
             \<and> (\<exists>newFiles. a = FilesSelected newFiles))
         \<or> (\<exists>i blob baseName. a = MarkCompleted i blob baseName \<and> idF g = i
             \<and> status g = COMPLETED \<and> outputBlob g = Some blob \<and> newName g = Some baseName)))"
proof -
  define a where "a = MarkCompleted (lit ''b'') (Blob 9) (lit ''photo'')"
  define g where "g = step a exampleFiles ! 1"
  have "length (step a exampleFiles) = 4"
    by (simp add: a_def markCompleted_def example_length)
  then have mem: "g \<in> set (step a exampleFiles)"
    unfolding g_def by (intro nth_mem) simp
  from blob_and_name_set_together [of a exampleFiles "[]" exampleBrowser initialSettings "[]" "[]" "[]"]
  have "\<forall>g \<in> set (step a exampleFiles).
      (\<exists>f \<in> set exampleFiles. idF g = idF f \<and> outputBlob g = outputBlob f \<and> newName g = newName f)
    \<or> (outputBlob g = None \<and> newName g = None \<and> status g = IDLE
         \<and> (\<exists>newFiles. a = FilesSelected newFiles))
    \<or> (\<exists>i blob baseName. a = MarkCompleted i blob baseName \<and> idF g = i
         \<and> status g = COMPLETED \<and> outputBlob g = Some blob \<and> newName g = Some baseName)"
    by (rule conjunct1)
  with mem show ?thesis
    unfolding Let_def a_def [symmetric] g_def [symmetric] by blast
qed

text \<open>
  C7. \<open>convertImage\<close> rejects with the Error \<open>Failed to load image\<close> when the image
  does not decode and with the Error \<open>Conversion failed\<close> when the encoding gives no blob.
  A file of the run whose conversion rejects ends with status error and an error message
  (the Error's message, or the translated failure text for a rejection that is not an
  Error), its output blob and output name being those it had before the run.
\<close>

theorem conversion_failures:
  "(fileReader br file = Some dataUrl \<and> imageLoad br dataUrl = None \<longrightarrow>
      convertImage br file settings = Inl (Error (lit ''Failed to load image'')))
   \<and> (fileReader br file = Some dataUrl \<and> imageLoad br dataUrl = Some img
        \<and> getContext br (fst (targetSize img settings)) (snd (targetSize img settings))
        \<and> toBlob br img (fst (targetSize img settings)) (snd (targetSize img settings))
             (format settings) (quality settings) = None \<longrightarrow>
      convertImage br file settings = Inl (Error (lit ''Conversion failed'')))
   \<and> (distinct (map idF files) \<and> k < length files
        \<and> set order = set (tasks (resetErrors files))
        \<and> status (files ! k) \<noteq> COMPLETED
        \<and> convertImage br (originalFile (files ! k)) settings = Inl e \<longrightarrow>
      status (startProcessing br settings statusFailed order files ! k) = ERROR
      \<and> error (startProcessing br settings statusFailed order files ! k)
          = Some (case e of Error message \<Rightarrow> message | NotAnError \<Rightarrow> statusFailed)
      \<and> outputBlob (startProcessing br settings statusFailed order files ! k)
          = outputBlob (files ! k)
      \<and> newName (startProcessing br settings statusFailed order files ! k)
          = newName (files ! k))"
proof (intro conjI impI)
  assume "fileReader br file = Some dataUrl \<and> imageLoad br dataUrl = None"
  then show "convertImage br file settings = Inl (Error (lit ''Failed to load image''))"
    by (simp add: convertImage_def readFileAsDataURL_def)
next
  assume "fileReader br file = Some dataUrl \<and> imageLoad br dataUrl = Some img
        \<and> getContext br (fst (targetSize img settings)) (snd (targetSize img settings))
        \<and> toBlob br img (fst (targetSize img settings)) (snd (targetSize img settings))
             (format settings) (quality settings) = None"
  then show "convertImage br file settings = Inl (Error (lit ''Conversion failed''))"
    by (cases "targetSize img settings") (simp add: convertImage_def readFileAsDataURL_def)
next
  assume a: "distinct (map idF files) \<and> k < length files
        \<and> set order = set (tasks (resetErrors files))
        \<and> status (files ! k) \<noteq> COMPLETED
        \<and> convertImage br (originalFile (files ! k)) settings = Inl e"
  then have r: "startProcessing br settings statusFailed order files ! k =
      (files ! k)\<lparr>status := ERROR,
         error := Some (case e of Error message \<Rightarrow> message | NotAnError \<Rightarrow> statusFailed)\<rparr>"
    by (simp add: startProcessing_nth)
  show "status (startProcessing br settings statusFailed order files ! k) = ERROR"
    by (simp add: r)
  show "error (startProcessing br settings statusFailed order files ! k)
          = Some (case e of Error message \<Rightarrow> message | NotAnError \<Rightarrow> statusFailed)"
    by (simp add: r)
  show "outputBlob (startProcessing br settings statusFailed order files ! k)
          = outputBlob (files ! k)"
    by (simp add: r)
  show "newName (startProcessing br settings statusFailed order files ! k) = newName (files ! k)"
    by (simp add: r)
qed

theorem conversion_failures_witness:
  "convertImage exampleBrowser \<lparr>name = lit ''broken.png'', bytes = 3\<rparr> initialSettings
      = Inl (Error (lit ''Failed to load image''))
   \<and> convertImage exampleBrowser \<lparr>name = lit ''huge.png'', bytes = 4\<rparr> initialSettings
      = Inl (Error (lit ''Conversion failed''))
   \<and> status (startProcessing exampleBrowser initialSettings (lit ''failed'')
         (rev (tasks (resetErrors exampleFiles))) exampleFiles ! 2) = ERROR
   \<and> error (startProcessing exampleBrowser initialSettings (lit ''failed'')
         (rev (tasks (resetErrors exampleFiles))) exampleFiles ! 2)
       = Some (lit ''Failed to load image'')
   \<and> outputBlob (startProcessing exampleBrowser initialSettings (lit ''failed'')
         (rev (tasks (resetErrors exampleFiles))) exampleFiles ! 2) = None
   \<and> newName (startProcessing exampleBrowser initialSettings (lit ''failed'')
         (rev (tasks (resetErrors exampleFiles))) exampleFiles ! 2) = None"
proof -
  note t = conversion_failures [of exampleBrowser _ _ initialSettings
      "\<lparr>src = lit ''huge.png'', img_width = 4, img_height = 2\<rparr>"
      exampleFiles 2 "rev (tasks (resetErrors exampleFiles))"
      "Error (lit ''Failed to load image'')" "lit ''failed''"]
  have a: "convertImage exampleBrowser \<lparr>name = lit ''broken.png'', bytes = 3\<rparr> initialSettings
      = Inl (Error (lit ''Failed to load image''))"
    using t [of "\<lparr>name = lit ''broken.png'', bytes = 3\<rparr>" "lit ''broken.png''"]
    by (simp add: exampleBrowser_def)
  have b: "convertImage exampleBrowser \<lparr>name = lit ''huge.png'', bytes = 4\<rparr> initialSettings
      = Inl (Error (lit ''Conversion failed''))"
    using t [of "\<lparr>name = lit ''huge.png'', bytes = 4\<rparr>" "lit ''huge.png''"]
    by (simp add: exampleBrowser_def lit_def)
  have c: "status (startProcessing exampleBrowser initialSettings (lit ''failed'')
         (rev (tasks (resetErrors exampleFiles))) exampleFiles ! 2) = ERROR
   \<and> error (startProcessing exampleBrowser initialSettings (lit ''failed'')
         (rev (tasks (resetErrors exampleFiles))) exampleFiles ! 2)
       = Some (lit ''Failed to load image'')
   \<and> outputBlob (startProcessing exampleBrowser initialSettings (lit ''failed'')
         (rev (tasks (resetErrors exampleFiles))) exampleFiles ! 2) = outputBlob (exampleFiles ! 2)
   \<and> newName (startProcessing exampleBrowser initialSettings (lit ''failed'')
         (rev (tasks (resetErrors exampleFiles))) exampleFiles ! 2) = newName (exampleFiles ! 2)"
    using t [of "\<lparr>name = lit ''broken.png'', bytes = 3\<rparr>" "lit ''broken.png''"]
      example_ids example_convert_broken
    by (simp add: example_length example_status)
  have d: "outputBlob (exampleFiles ! 2) = None" "newName (exampleFiles ! 2) = None"
    by (simp_all add: exampleFiles_def)
  show ?thesis using a b c d by simp
qed

text \<open>
  C8. In centimeter mode each given width or height is multiplied by the constant 37.795
  before the target dimensions are computed, and an absent one stays absent; in pixel
  mode the inputs are taken as they are. The constant is the binary64 number nearest to
  37.795 and the product is the binary64 one: a finite product is the exact one within
  one rounding, and a product too large is \<open>Infinity\<close>. The target of centimeter mode
  is that of pixel mode on the multiplied inputs.
\<close>

theorem centimeters_to_pixels:
  "CM_TO_PX = binary64 37.795
   \<and> CM_TO_PX = Fin (2659586686194811 / 70368744177664)
   \<and> \<bar>2659586686194811 / 70368744177664 - 37.795\<bar> \<le> binary64_bound 37.795
   \<and> (resizeMode settings = CM \<longrightarrow>
        reqW settings = map_option (\<lambda>w. jmul w CM_TO_PX) (width settings)
        \<and> reqH settings = map_option (\<lambda>h. jmul h CM_TO_PX) (height settings))
   \<and> (resizeMode settings = CM \<and> width settings = Some (Fin a)
        \<and> reqW settings = Some (Fin p) \<longrightarrow>
        \<bar>p - a * (2659586686194811 / 70368744177664)\<bar>
          \<le> binary64_bound (a * (2659586686194811 / 70368744177664)))
   \<and> (resizeMode settings = CM \<and> height settings = Some (Fin b)
        \<and> reqH settings = Some (Fin p') \<longrightarrow>
        \<bar>p' - b * (2659586686194811 / 70368744177664)\<bar>
          \<le> binary64_bound (b * (2659586686194811 / 70368744177664)))
   \<and> (resizeMode settings = PX \<longrightarrow>
        reqW settings = width settings \<and> reqH settings = height settings)
   \<and> resizeTarget img (settings\<lparr>resizeMode := CM\<rparr>) =
        resizeTarget img
          (settings\<lparr>resizeMode := PX,
             width := map_option (\<lambda>w. jmul w CM_TO_PX) (width settings),
             height := map_option (\<lambda>h. jmul h CM_TO_PX) (height settings)\<rparr>)"
proof (intro conjI impI)
  show "CM_TO_PX = binary64 37.795" by (rule CM_TO_PX_def)
  show "CM_TO_PX = Fin (2659586686194811 / 70368744177664)" by (rule CM_TO_PX_eq)
  have "binary64 37.795 = Fin (2659586686194811 / 70368744177664)"
    using CM_TO_PX_eq by (simp only: CM_TO_PX_def)
  then show "\<bar>2659586686194811 / 70368744177664 - 37.795\<bar> \<le> binary64_bound 37.795"
    by (rule binary64_error)
next
  assume "resizeMode settings = CM"
  then show "reqW settings = map_option (\<lambda>w. jmul w CM_TO_PX) (width settings)"
    and "reqH settings = map_option (\<lambda>h. jmul h CM_TO_PX) (height settings)"
    by (simp_all add: reqW_eq reqH_eq)
next
  assume "resizeMode settings = CM \<and> width settings = Some (Fin a)
        \<and> reqW settings = Some (Fin p)"
  then have "jmul (Fin a) (Fin (2659586686194811 / 70368744177664)) = Fin p"
    by (auto simp: reqW_eq CM_TO_PX_eq simp del: jmul.simps)
  then show "\<bar>p - a * (2659586686194811 / 70368744177664)\<bar>
          \<le> binary64_bound (a * (2659586686194811 / 70368744177664))"
    by (rule jmul_error)
next
  assume "resizeMode settings = CM \<and> height settings = Some (Fin b)
        \<and> reqH settings = Some (Fin p')"
  then have "jmul (Fin b) (Fin (2659586686194811 / 70368744177664)) = Fin p'"
    by (auto simp: reqH_eq CM_TO_PX_eq simp del: jmul.simps)
  then show "\<bar>p' - b * (2659586686194811 / 70368744177664)\<bar>
          \<le> binary64_bound (b * (2659586686194811 / 70368744177664))"
    by (rule jmul_error)
next
  assume "resizeMode settings = PX"
  then show "reqW settings = width settings" and "reqH settings = height settings"
    by (simp_all add: reqW_eq reqH_eq)
next
  show "resizeTarget img (settings\<lparr>resizeMode := CM\<rparr>) =
        resizeTarget img
          (settings\<lparr>resizeMode := PX,
             width := map_option (\<lambda>w. jmul w CM_TO_PX) (width settings),
             height := map_option (\<lambda>h. jmul h CM_TO_PX) (height settings)\<rparr>)"
    by (simp add: reqW_eq reqH_eq resizeTarget_def Let_def del: jmul.simps jdiv.simps)
qed

theorem centimeters_to_pixels_witness:
  "reqW (initialSettings\<lparr>resizeMode := CM,
           width := Some (Fin (3602879701896397 / 36028797018963968))\<rparr>)
     = Some (Fin (2127669348955849 / 562949953421312))
   \<and> \<bar>2127669348955849 / 562949953421312
        - 3602879701896397 / 36028797018963968 * (2659586686194811 / 70368744177664)\<bar>
       \<le> binary64_bound
            (3602879701896397 / 36028797018963968 * (2659586686194811 / 70368744177664))
   \<and> reqH (initialSettings\<lparr>resizeMode := CM,
           width := Some (Fin (3602879701896397 / 36028797018963968))\<rparr>) = None
   \<and> reqW (initialSettings\<lparr>resizeMode := CM, width := Some (Fin (10 ^ 308))\<rparr>) = Some PosInf
   \<and> reqW (initialSettings\<lparr>resizeMode := PX, width := Some (Fin 2)\<rparr>) = Some (Fin 2)
   \<and> reqH (initialSettings\<lparr>resizeMode := PX, width := Some (Fin 2)\<rparr>) = None
   \<and> resizeTarget \<lparr>src = [], img_width = 11, img_height = 88\<rparr>
        (initialSettings\<lparr>resizeMode := CM, width := Some (Fin 12.5)\<rparr>) = (Fin 472, Fin 3779)"
proof -
  define k :: real where "k = 2659586686194811 / 70368744177664"
  define x :: real where "x = 3602879701896397 / 36028797018963968"
  define p :: real where "p = 2127669348955849 / 562949953421312"
  define I where "I = \<lparr>src = [], img_width = 11, img_height = 88\<rparr>"
  define S1 where "S1 = initialSettings\<lparr>resizeMode := CM, width := Some (Fin x)\<rparr>"
  define S2 where "S2 = initialSettings\<lparr>resizeMode := CM, width := Some (Fin (10 ^ 308))\<rparr>"
  define S3 where "S3 = initialSettings\<lparr>resizeMode := PX, width := Some (Fin 2)\<rparr>"
  define S4 where "S4 = initialSettings\<lparr>width := Some (Fin 12.5)\<rparr>"
  have k: "CM_TO_PX = Fin k" by (simp add: k_def CM_TO_PX_eq)
  have m1: "jmul (Fin x) (Fin k) = Fin p"
    by (simp add: x_def k_def p_def binary64_eval)
  have "2 powi 1024 \<le> (10 ^ 308 * k :: real)" by (simp add: k_def)
  then have m2: "jmul (Fin (10 ^ 308)) (Fin k) = PosInf"
    by (simp add: binary64_overflow)
  have m3: "jmul (Fin 12.5) (Fin k) = Fin (7559 / 16)"
    by (simp add: k_def binary64_eval)
  have f1: "resizeMode S1 = CM" "width S1 = Some (Fin x)" "height S1 = None"
    by (simp_all add: S1_def initialSettings_def)
  have f2: "resizeMode S2 = CM" "width S2 = Some (Fin (10 ^ 308))"
    by (simp_all add: S2_def initialSettings_def)
  have f3: "resizeMode S3 = PX" "width S3 = Some (Fin 2)" "height S3 = None"
    by (simp_all add: S3_def initialSettings_def)
  note t1 = centimeters_to_pixels [of S1 x p 0 0 I]
  from t1 have "resizeMode S1 = CM \<longrightarrow>
        reqW S1 = map_option (\<lambda>w. jmul w CM_TO_PX) (width S1)
        \<and> reqH S1 = map_option (\<lambda>h. jmul h CM_TO_PX) (height S1)"
    by blast
  then have a: "reqW S1 = Some (Fin p)" "reqH S1 = None"
    unfolding k using f1 m1 by (simp_all del: jmul.simps)
  from t1 have "resizeMode S1 = CM \<and> width S1 = Some (Fin x) \<and> reqW S1 = Some (Fin p) \<longrightarrow>
        \<bar>p - x * (2659586686194811 / 70368744177664)\<bar>
          \<le> binary64_bound (x * (2659586686194811 / 70368744177664))"
    by blast
  then have a': "\<bar>p - x * k\<bar> \<le> binary64_bound (x * k)"
    unfolding k_def using f1 a by blast
  from centimeters_to_pixels [of S2 0 0 0 0 I]
  have "resizeMode S2 = CM \<longrightarrow>
        reqW S2 = map_option (\<lambda>w. jmul w CM_TO_PX) (width S2)
        \<and> reqH S2 = map_option (\<lambda>h. jmul h CM_TO_PX) (height S2)"
    by blast
  then have b: "reqW S2 = Some PosInf"
    unfolding k using f2 m2 by (simp del: jmul.simps)
  from centimeters_to_pixels [of S3 0 0 0 0 I]
  have "resizeMode S3 = PX \<longrightarrow> reqW S3 = width S3 \<and> reqH S3 = height S3"
    by blast
  then have c: "reqW S3 = Some (Fin 2)" "reqH S3 = None"
    using f3 by simp_all
  from centimeters_to_pixels [of S4 0 0 0 0 I]
  have "resizeTarget I (S4\<lparr>resizeMode := CM\<rparr>) =
        resizeTarget I
          (S4\<lparr>resizeMode := PX,
             width := map_option (\<lambda>w. jmul w CM_TO_PX) (width S4),
             height := map_option (\<lambda>h. jmul h CM_TO_PX) (height S4)\<rparr>)"
    by blast
  also have "S4\<lparr>resizeMode := PX,
             width := map_option (\<lambda>w. jmul w CM_TO_PX) (width S4),
             height := map_option (\<lambda>h. jmul h CM_TO_PX) (height S4)\<rparr>
      = initialSettings\<lparr>resizeMode := PX, width := Some (Fin (7559 / 16))\<rparr>"
    unfolding k using m3 by (simp add: S4_def initialSettings_def del: jmul.simps)
  also have "resizeTarget I (initialSettings\<lparr>resizeMode := PX, width := Some (Fin (7559 / 16))\<rparr>)
      = (Fin 472, Fin 3779)"
    by (simp add: resizeTarget_def reqW_def reqH_def initialSettings_def I_def binary64_eval)
  finally have d: "resizeTarget I (initialSettings\<lparr>resizeMode := CM, width := Some (Fin 12.5)\<rparr>)
      = (Fin 472, Fin 3779)"
    by (simp add: S4_def initialSettings_def)
  show ?thesis
    using a a' b c d unfolding S1_def S2_def S3_def k_def x_def p_def I_def by blast
qed

text \<open>
  C9. A bulk download, zip or raw, of all files or of the selected ones, keeps of its
  target list the files that are completed and have an output blob. When none is left it
  triggers nothing. Every blob it saves, alone or as an entry of the archive, is the
  output blob of a completed file of the target list under that file's name; in raw
  mode the downloads are exactly those files, in order.
\<close>

theorem bulk_download_only_ready:
  "(filter isReady targetFiles = [] \<longrightarrow> handleDownloadFiles settings now targetFiles mode = [])
   \<and> (\<forall>d \<in> set (handleDownloadFiles settings now targetFiles mode).
        (case d of
           SaveBlob blob n \<Rightarrow>
             (\<exists>f \<in> set targetFiles.
                status f = COMPLETED \<and> outputBlob f = Some blob \<and> n = fileName settings f)
         | SaveZip entries n \<Rightarrow>
             (\<forall>k blob. entries k = Some blob \<longrightarrow>
                (\<exists>f \<in> set targetFiles.
                   status f = COMPLETED \<and> outputBlob f = Some blob \<and> k = fileName settings f))))
   \<and> handleDownloadFiles settings now targetFiles Raw =
        map (\<lambda>f. SaveBlob (the (outputBlob f)) (fileName settings f)) (filter isReady targetFiles)
   \<and> onDownloadAll settings now files mode = handleDownloadFiles settings now files mode
   \<and> onDownloadSelected settings now files selectedIds mode =
        handleDownloadFiles settings now (filter (\<lambda>f. idF f \<in> selectedIds) files) mode"
proof (intro conjI impI ballI)
  assume "filter isReady targetFiles = []"
  then show "handleDownloadFiles settings now targetFiles mode = []"
    by (simp add: handleDownloadFiles_def)
next
  fix d assume d: "d \<in> set (handleDownloadFiles settings now targetFiles mode)"
  show "case d of
           SaveBlob blob n \<Rightarrow>
             (\<exists>f \<in> set targetFiles.
                status f = COMPLETED \<and> outputBlob f = Some blob \<and> n = fileName settings f)
         | SaveZip entries n \<Rightarrow>
             (\<forall>k blob. entries k = Some blob \<longrightarrow>
                (\<exists>f \<in> set targetFiles.
                   status f = COMPLETED \<and> outputBlob f = Some blob \<and> k = fileName settings f))"
  proof (cases mode)
    case Zip
    have "\<exists>f \<in> set targetFiles.
            status f = COMPLETED \<and> outputBlob f = Some blob \<and> k = fileName settings f"
      if "foldl (\<lambda>zip file. (case outputBlob file of
                         Some blob \<Rightarrow> zip(fileName settings file \<mapsto> blob)
                       | None \<Rightarrow> zip)) Map.empty (filter isReady targetFiles) k = Some blob"
      for k blob
      using zip_entries [OF that] by (auto simp: isReady_def)
    then show ?thesis
      using d Zip by (auto simp: handleDownloadFiles_def Let_def split: if_splits)
  next
    case Raw
    then show ?thesis
      using d by (auto simp: raw_downloads isReady_def)
  qed
next
  show "handleDownloadFiles settings now targetFiles Raw =
        map (\<lambda>f. SaveBlob (the (outputBlob f)) (fileName settings f)) (filter isReady targetFiles)"
    by (rule raw_downloads)
next
  show "onDownloadAll settings now files mode = handleDownloadFiles settings now files mode"
    by (simp add: onDownloadAll_def)
next
  show "onDownloadSelected settings now files selectedIds mode =
        handleDownloadFiles settings now (filter (\<lambda>f. idF f \<in> selectedIds) files) mode"
    by (simp add: onDownloadSelected_def)
qed

theorem bulk_download_only_ready_witness:
  "filter isReady (tl exampleFiles) = []
   \<and> handleDownloadFiles initialSettings 0 (tl exampleFiles) Zip = []
   \<and> handleDownloadFiles initialSettings 0 exampleFiles Raw
       = [SaveBlob (Blob 1) (lit ''done.jpg'')]
   \<and> (\<exists>f \<in> set exampleFiles.
         status f = COMPLETED \<and> outputBlob f = Some (Blob 1)
         \<and> lit ''done.jpg'' = fileName initialSettings f)
   \<and> onDownloadSelected initialSettings 0 exampleFiles {lit ''b'', lit ''c''} Zip = []"
proof -
  have e: "filter isReady (tl exampleFiles) = []"
    by (simp add: exampleFiles_def isReady_def)
  have a: "handleDownloadFiles initialSettings 0 (tl exampleFiles) Zip = []"
    using bulk_download_only_ready [of "tl exampleFiles" initialSettings 0 Zip] e by simp
  note t = bulk_download_only_ready [of exampleFiles initialSettings 0 Raw]
  have r: "handleDownloadFiles initialSettings 0 exampleFiles Raw
       = [SaveBlob (Blob 1) (lit ''done.jpg'')]"
    using t by (simp add: exampleFiles_def isReady_def fileName_def initialSettings_def lit_def)
  from t have "\<forall>d \<in> set (handleDownloadFiles initialSettings 0 exampleFiles Raw).
        (case d of
           SaveBlob blob n \<Rightarrow>
             (\<exists>f \<in> set exampleFiles.
                status f = COMPLETED \<and> outputBlob f = Some blob \<and> n = fileName initialSettings f)
         | SaveZip entries n \<Rightarrow>
             (\<forall>k blob. entries k = Some blob \<longrightarrow>
                (\<exists>f \<in> set exampleFiles.
                   status f = COMPLETED \<and> outputBlob f = Some blob
                   \<and> k = fileName initialSettings f)))"
    by blast
  then have b: "\<exists>f \<in> set exampleFiles.
         status f = COMPLETED \<and> outputBlob f = Some (Blob 1)
         \<and> lit ''done.jpg'' = fileName initialSettings f"
    unfolding r by simp
  have s: "filter isReady (filter (\<lambda>f. idF f \<in> {lit ''b'', lit ''c''}) exampleFiles) = []"
    by (simp add: exampleFiles_def isReady_def lit_def)
  have c: "onDownloadSelected initialSettings 0 exampleFiles {lit ''b'', lit ''c''} Zip = []"
    using bulk_download_only_ready [of "filter (\<lambda>f. idF f \<in> {lit ''b'', lit ''c''}) exampleFiles"
        initialSettings 0 Zip exampleFiles "{lit ''b'', lit ''c''}"] s
    by simp
  show ?thesis using e a r b c by simp
qed

text \<open>
  C10. When the base filename override is empty or consists of white space only and the
  original name of a file contains no dot, the computed base name is the empty string
  (with sequential numbering, just the underscore and the number): splitting at the dot
  and dropping the last segment leaves nothing, and no further fallback applies. The
  output file is then named \<open>.<ext>\<close> or \<open>_<n>.<ext>\<close>.
\<close>

theorem base_name_empty_without_dot:
  assumes "\<forall>c \<in> set (baseFilename settings). is_js_space c"
    and "of_char CHR ''.'' \<notin> set (name file)"
  shows "computeBaseName settings file index =
           (if useSequentialNumbering settings then lit ''_'' @ toString (index + 1) else [])
       \<and> fileName chosen (f\<lparr>newName := Some (computeBaseName settings file index)\<rparr>) =
           (if useSequentialNumbering settings then lit ''_'' @ toString (index + 1) else [])
             @ lit ''.'' @ getExtensionFromMime (format chosen)"
  using assms
  by (simp add: computeBaseName_def fileName_def trim_Nil_iff originalBase_no_dot)

theorem base_name_empty_without_dot_witness:
  "trim (baseFilename (initialSettings\<lparr>baseFilename := lit ''  '', useSequentialNumbering := True\<rparr>)) = []
   \<and> computeBaseName (initialSettings\<lparr>baseFilename := lit ''  '', useSequentialNumbering := True\<rparr>)
        \<lparr>name = lit ''README'', bytes = 0\<rparr> 2 = lit ''_3''
   \<and> fileName (initialSettings\<lparr>format := PNG\<rparr>)
        (\<lparr>idF = lit ''a'', originalFile = \<lparr>name = lit ''README'', bytes = 0\<rparr>, previewUrl = [],
          status = COMPLETED, outputBlob = Some (Blob 1), newName = None, error = None\<rparr>
          \<lparr>newName := Some (computeBaseName
             (initialSettings\<lparr>baseFilename := lit ''  '', useSequentialNumbering := True\<rparr>)
             \<lparr>name = lit ''README'', bytes = 0\<rparr> 2)\<rparr>) = lit ''_3.png''"
  using base_name_empty_without_dot [of
      "initialSettings\<lparr>baseFilename := lit ''  '', useSequentialNumbering := True\<rparr>"
      "\<lparr>name = lit ''README'', bytes = 0\<rparr>" 2 "initialSettings\<lparr>format := PNG\<rparr>"
      "\<lparr>idF = lit ''a'', originalFile = \<lparr>name = lit ''README'', bytes = 0\<rparr>, previewUrl = [],
          status = COMPLETED, outputBlob = Some (Blob 1), newName = None, error = None\<rparr>"]
  by (clarsimp simp: initialSettings_def lit_def is_js_space_def trim_def)

end
